theory Spec2Isabelle
  imports Main "HOL-Library.Sublist"
begin

section \<open>JSON values, Go maps and decoding\<close>

text \<open>
  The generator \<^verbatim>\<open>cmd/gentypes/gentypes.go\<close> reads a JSON schema and writes Go source
  text. The bytes of a syntactically valid JSON text are modelled by the value they
  encode: an object keeps its members as a list, in source order and with duplicates,
  because the program reads the same bytes twice, once into a Go map and once as a
  token stream. A \<^verbatim>\<open>json.RawMessage\<close> is the value of the fragment it holds. Strings
  are byte strings; the schema's names are ASCII.
\<close>

datatype json =
    JNull
  | JBool bool
  | JNumber string
  | JString string
  | JArray "json list"
  | JObject "(string \<times> json) list"

text \<open>
  How the process can end early: \<open>Fatal\<close> is \<^verbatim>\<open>log.Fatal\<close> (a message on standard
  error, exit status 1), \<open>Panic\<close> is a run-time panic (a failed type assertion). The
  other three are the \<^verbatim>\<open>error\<close> values that \<^verbatim>\<open>keysInOrder\<close> and \<^verbatim>\<open>skipValue\<close> return.
\<close>

datatype error = Fatal | Panic | EOF | ExpectedStartOfObject | ErrEnd

text \<open>
  A Go map decoded from an object: the member list, read only through \<open>mlookup\<close>.
  \<^verbatim>\<open>encoding/json\<close> stores the members in order, so a later duplicate key overwrites
  an earlier one. The nil map is the empty list.
\<close>

type_synonym gomap = "(string \<times> json) list"

definition mlookup :: "gomap \<Rightarrow> string \<Rightarrow> json option" where
  "mlookup m k = map_of (rev m) k"

text \<open>
  \<^verbatim>\<open>json.Unmarshal\<close> into a map (\<^verbatim>\<open>map[string]json.RawMessage\<close> or
  \<^verbatim>\<open>map[string]interface{}\<close>), into a slice and into a string. JSON null leaves the
  target at its zero value and is no error; a value of another shape is an
  \<^verbatim>\<open>UnmarshalTypeError\<close>, which every caller turns into \<^verbatim>\<open>log.Fatal\<close>.
\<close>

fun unmarshalMap :: "json \<Rightarrow> error + gomap" where
  "unmarshalMap (JObject kvs) = Inr kvs"
| "unmarshalMap JNull = Inr []"
| "unmarshalMap _ = Inl Fatal"

fun unmarshalSlice :: "json \<Rightarrow> error + json list" where
  "unmarshalSlice (JArray vs) = Inr vs"
| "unmarshalSlice JNull = Inr []"
| "unmarshalSlice _ = Inl Fatal"

fun unmarshalString :: "json \<Rightarrow> error + string" where
  "unmarshalString (JString s) = Inr s"
| "unmarshalString JNull = Inr []"
| "unmarshalString _ = Inl Fatal"

text \<open>Characters that a string literal cannot hold directly.\<close>

definition tab :: string where
  "tab = [CHR 0x09]"

definition dq :: string where
  "dq = [CHR 0x22]"

definition nl :: string where
  "nl = ''\<newline>''"

section \<open>The ordered JSON reader\<close>

text \<open>
  \<^verbatim>\<open>json.Decoder.Token\<close> yields the tokens of the text one at a time: the four
  delimiters, and strings (object keys too), numbers, booleans and null. The decoder
  state is the list of tokens not yet read; reading past the end is \<^verbatim>\<open>io.EOF\<close>.
\<close>

datatype token = Delim char | TString string | TNumber string | TBool bool | TNull

fun tokens :: "json \<Rightarrow> token list" where
  "tokens JNull = [TNull]"
| "tokens (JBool b) = [TBool b]"
| "tokens (JNumber n) = [TNumber n]"
| "tokens (JString s) = [TString s]"
| "tokens (JArray vs) = Delim (CHR ''['') # concat (map tokens vs) @ [Delim (CHR '']'')]"
| "tokens (JObject kvs) =
     Delim (CHR ''{'') # concat (map (\<lambda>(k, v). TString k # tokens v) kvs) @ [Delim (CHR ''}'')]"

text \<open>
  \<^verbatim>\<open>skipValue\<close> reads one token; after an opening delimiter it loops (\<open>skipLoop\<close>, the
  \<^verbatim>\<open>for\<close> of the source) until a nested call reports \<^verbatim>\<open>errEnd\<close>, the closing
  delimiter. The result is the returned error, if any, and the decoder state.
\<close>

function skipValue :: "token list \<Rightarrow> error option \<times> token list"
  and skipLoop :: "token list \<Rightarrow> error option \<times> token list" where
  "skipValue [] = (Some EOF, [])"
| "skipValue (t # d) =
     (if t = Delim (CHR ''['') \<or> t = Delim (CHR ''{'') then skipLoop d
      else if t = Delim (CHR '']'') \<or> t = Delim (CHR ''}'') then (Some ErrEnd, d)
      else (None, d))"
| "skipLoop d =
     (case skipValue d of
        (Some err, d') \<Rightarrow> if err = ErrEnd then (None, d') else (Some err, d')
      | (None, d') \<Rightarrow> skipLoop d')"
  by pat_completeness auto

lemma skip_dom_length:
  "skipValue_skipLoop_dom (Inl d) \<Longrightarrow>
     (fst (skipValue d) = None \<or> fst (skipValue d) = Some ErrEnd) \<longrightarrow>
       length (snd (skipValue d)) < length d"
  "skipValue_skipLoop_dom (Inr d) \<Longrightarrow>
     fst (skipLoop d) \<noteq> Some ErrEnd \<and>
     (fst (skipLoop d) = None \<longrightarrow> length (snd (skipLoop d)) < length d)"
proof (induction rule: skipValue_skipLoop.pinduct)
  case 1
  then show ?case by (simp add: skipValue.psimps)
next
  case (2 t d)
  then show ?case by (auto simp: skipValue.psimps split: if_splits)
next
  case (3 d)
  then show ?case
    by (cases "skipValue d") (auto simp: skipLoop.psimps split: option.splits if_splits)
qed

termination skipValue
proof (relation "measures [\<lambda>x. case x of Inl d \<Rightarrow> length d | Inr d \<Rightarrow> length d,
                           \<lambda>x. case x of Inl d \<Rightarrow> 0 | Inr d \<Rightarrow> 1]", goal_cases)
  case 1
  then show ?case by simp
next
  case (2 t d)
  then show ?case by simp
next
  case (3 d)
  then show ?case by simp
next
  case (4 d x y)
  then show ?case using skip_dom_length(1) [of d] by (cases "skipValue d") auto
qed

declare skipLoop.simps [simp del]

lemma skip_length:
  "(fst (skipValue d) = None \<or> fst (skipValue d) = Some ErrEnd) \<longrightarrow>
     length (snd (skipValue d)) < length d"
  "fst (skipLoop d) \<noteq> Some ErrEnd \<and>
     (fst (skipLoop d) = None \<longrightarrow> length (snd (skipLoop d)) < length d)"
proof (induction rule: skipValue_skipLoop.induct)
  case 1
  then show ?case by simp
next
  case (2 t d)
  then show ?case by (auto split: if_splits)
next
  case (3 d)
  then show ?case
    by (cases "skipValue d") (auto simp: skipLoop.simps [of d] split: option.splits if_splits)
qed

text \<open>
  \<^verbatim>\<open>keysInOrder\<close>: the first token must open an object; then the loop (\<open>keysLoop\<close>)
  reads a key, skips its value, and returns the keys at the closing brace. The type
  assertion \<^verbatim>\<open>t.(string)\<close> panics on a token that is not a string.
\<close>

function keysLoop :: "string list \<Rightarrow> token list \<Rightarrow> error + string list" where
  "keysLoop keys [] = Inl EOF"
| "keysLoop keys (t # d) =
     (if t = Delim (CHR ''}'') then Inr keys
      else (case t of
              TString k \<Rightarrow>
                (case skipValue d of
                   (Some err, d') \<Rightarrow> Inl err
                 | (None, d') \<Rightarrow> keysLoop (keys @ [k]) d')
            | _ \<Rightarrow> Inl Panic))"
  by pat_completeness auto

termination
proof (relation "measure (\<lambda>(keys, d). length d)", goal_cases)
  case 1
  then show ?case by simp
next
  case (2 keys t d k x y)
  then show ?case using skip_length(1) [of d] by (cases "skipValue d") auto
qed

definition keysInOrder :: "json \<Rightarrow> error + string list" where
  "keysInOrder b =
     (case tokens b of
        [] \<Rightarrow> Inl EOF
      | t # d \<Rightarrow> if t \<noteq> Delim (CHR ''{'') then Inl ExpectedStartOfObject else keysLoop [] d)"

section \<open>Type references and field names\<close>

text \<open>
  \<^verbatim>\<open>replaceGoTypename\<close>: the schema's type \<^verbatim>\<open>Message\<close> collides with the Go interface
  of that name in the preamble.
\<close>

definition replaceGoTypename :: "string \<Rightarrow> string" where
  "replaceGoTypename typeName = (if typeName = ''Message'' then ''ErrorMessage'' else typeName)"

text \<open>
  \<^verbatim>\<open>parseRef\<close> takes an \<^verbatim>\<open>interface{}\<close>: the decoded value of a \<^verbatim>\<open>$ref\<close> key, where nil
  (a missing key, or JSON null) is \<open>JNull\<close>. The assertion \<^verbatim>\<open>refValue.(string)\<close> panics
  on anything but a string; \<^verbatim>\<open>refContents[14:]\<close> drops the prefix.
\<close>

fun parseRef :: "json \<Rightarrow> error + string" where
  "parseRef (JString refContents) =
     (if \<not> prefix ''#/definitions/'' refContents then Inl Fatal
      else Inr (replaceGoTypename (drop 14 refContents)))"
| "parseRef _ = Inl Panic"

text \<open>
  \<^verbatim>\<open>strings.ReplaceAll\<close> for a one-character pattern, and \<^verbatim>\<open>strings.Title\<close> on ASCII:
  a letter that follows a separator is mapped to upper case, every other character is
  kept. \<^verbatim>\<open>isSeparator\<close> of the Go library makes every ASCII character a separator
  except letters, digits and the underscore. Bytes above \<open>0x7F\<close> stand for letters of
  other scripts and are left as they are.
\<close>

definition replaceAll :: "char \<Rightarrow> string \<Rightarrow> string \<Rightarrow> string" where
  "replaceAll old new s = concat (map (\<lambda>c. if c = old then new else [c]) s)"

definition isSeparator :: "char \<Rightarrow> bool" where
  "isSeparator r =
     (if (of_char r :: nat) \<le> 0x7F then
        r \<notin> set ''0123456789abcdefghijklmnopqrstuvwxyzABCDEFGHIJKLMNOPQRSTUVWXYZ_''
      else False)"

definition toTitle :: "char \<Rightarrow> char" where
  "toTitle r =
     (case map_of (zip ''abcdefghijklmnopqrstuvwxyz'' ''ABCDEFGHIJKLMNOPQRSTUVWXYZ'') r of
        Some u \<Rightarrow> u
      | None \<Rightarrow> r)"

fun titleFrom :: "char \<Rightarrow> string \<Rightarrow> string" where
  "titleFrom prev [] = []"
| "titleFrom prev (r # s) = (if isSeparator prev then toTitle r else r) # titleFrom r s"

definition Title :: "string \<Rightarrow> string" where
  "Title s = titleFrom (CHR '' '') s"

definition goFieldName :: "string \<Rightarrow> string" where
  "goFieldName jsonPropName =
     (let clean = replaceAll (CHR ''_'') '' '' jsonPropName;
          titled = Title clean
      in replaceAll (CHR '' '') [] titled)"

section \<open>The property-type mapper\<close>

text \<open>A measure for the recursions that descend through map lookups.\<close>

fun jsize :: "json \<Rightarrow> nat" where
  "jsize (JArray vs) = Suc (sum_list (map jsize vs))"
| "jsize (JObject kvs) = Suc (sum_list (map (\<lambda>kv. jsize (snd kv)) kvs))"
| "jsize _ = 1"

definition msize :: "gomap \<Rightarrow> nat" where
  "msize m = sum_list (map (\<lambda>kv. jsize (snd kv)) m)"

lemma jsize_member: "(k, v) \<in> set m \<Longrightarrow> jsize v \<le> msize m"
  unfolding msize_def by (induction m) auto

lemma jsize_mlookup: "mlookup m k = Some v \<Longrightarrow> jsize v \<le> msize m"
  unfolding mlookup_def using jsize_member [of k v m] by (auto dest: map_of_SomeD)

lemma msize_mlookup_object: "mlookup m k = Some (JObject m') \<Longrightarrow> msize m' < msize m"
  using jsize_mlookup [of m k "JObject m'"] by (simp add: msize_def)

lemma jsize_element: "v \<in> set vs \<Longrightarrow> jsize v \<le> sum_list (map jsize vs)"
  by (induction vs) auto

lemma msize_unmarshalMap: "unmarshalMap j = Inr m \<Longrightarrow> msize m < jsize j"
  by (cases j) (auto simp: msize_def)

lemma jsize_unmarshalSlice: "unmarshalSlice j = Inr vs \<Longrightarrow> v \<in> set vs \<Longrightarrow> jsize v < jsize j"
  using jsize_element [of v vs] by (cases j) auto

text \<open>
  \<^verbatim>\<open>parsePropertyType\<close> on a decoded \<^verbatim>\<open>map[string]interface{}\<close>. The type switch on
  \<^verbatim>\<open>propType\<close> has a string case, a \<^verbatim>\<open>[]interface{}\<close> case (a JSON array) and a default;
  \<^verbatim>\<open>propItems.(map[string]interface{})\<close> panics unless the value is an object.
\<close>

function parsePropertyType :: "gomap \<Rightarrow> error + string" where
  "parsePropertyType propValue =
     (case mlookup propValue ''$ref'' of
        Some ref \<Rightarrow> parseRef ref
      | None \<Rightarrow>
          (case mlookup propValue ''type'' of
             None \<Rightarrow> Inl Fatal
           | Some propType \<Rightarrow>
               (case propType of
                  JString ty \<Rightarrow>
                    if ty = ''string'' then Inr ''string''
                    else if ty = ''integer'' then Inr ''int''
                    else if ty = ''boolean'' then Inr ''bool''
                    else if ty = ''array'' then
                      (case mlookup propValue ''items'' of
                         None \<Rightarrow> Inl Fatal
                       | Some propItems \<Rightarrow>
                           (case propItems of
                              JObject propItemsMap \<Rightarrow>
                                (case parsePropertyType propItemsMap of
                                   Inl e \<Rightarrow> Inl e
                                 | Inr itemType \<Rightarrow> Inr (''[]'' @ itemType))
                            | _ \<Rightarrow> Inl Panic))
                    else if ty = ''object'' then
                      (case mlookup propValue ''additionalProperties'' of
                         None \<Rightarrow> Inl Fatal
                       | Some additionalProps \<Rightarrow>
                           (case additionalProps of
                              JObject additionalPropsMap \<Rightarrow>
                                (case parsePropertyType additionalPropsMap of
                                   Inl e \<Rightarrow> Inl e
                                 | Inr valueType \<Rightarrow> Inr (''map[string]'' @ valueType))
                            | _ \<Rightarrow> Inl Panic))
                    else Inl Fatal
                | JArray tys \<Rightarrow> Inr ''interface{}''
                | _ \<Rightarrow> Inl Fatal)))"
  by pat_completeness auto

termination
  by (relation "measure msize") (auto simp: msize_mlookup_object)

declare parsePropertyType.simps [simp del]

section \<open>The inheritance resolver\<close>

text \<open>
  \<^verbatim>\<open>maybeParseInheritance\<close>: without \<^verbatim>\<open>allOf\<close> the description itself and an empty base
  name. Otherwise the list must have two elements; both are decoded before the
  reference of the first is parsed, and \<^verbatim>\<open>baseTypeRef["$ref"]\<close> is nil when the key is
  missing.
\<close>

definition maybeParseInheritance :: "gomap \<Rightarrow> error + (string \<times> gomap)" where
  "maybeParseInheritance descMap =
     (case mlookup descMap ''allOf'' of
        None \<Rightarrow> Inr ([], descMap)
      | Some allOfListJson \<Rightarrow>
          (case unmarshalSlice allOfListJson of
             Inl e \<Rightarrow> Inl Fatal
           | Inr allOfSliceOfJson \<Rightarrow>
               if length allOfSliceOfJson \<noteq> 2 then Inl Fatal
               else
                 (case unmarshalMap (allOfSliceOfJson ! 0) of
                    Inl e \<Rightarrow> Inl Fatal
                  | Inr baseTypeRef \<Rightarrow>
                      (case unmarshalMap (allOfSliceOfJson ! 1) of
                         Inl e \<Rightarrow> Inl Fatal
                       | Inr typeDescJson \<Rightarrow>
                           (case parseRef (case mlookup baseTypeRef ''$ref'' of
                                             None \<Rightarrow> JNull
                                           | Some ref \<Rightarrow> ref) of
                              Inl e \<Rightarrow> Inl e
                            | Inr baseTypeName \<Rightarrow> Inr (baseTypeName, typeDescJson))))))"

lemma msize_maybeParseInheritance:
  assumes "maybeParseInheritance descMap = Inr (baseTypeName, typeDescJson)"
  shows "msize typeDescJson \<le> msize descMap"
proof (cases "mlookup descMap ''allOf''")
  case None
  with assms show ?thesis by (simp add: maybeParseInheritance_def)
next
  case (Some allOfListJson)
  with assms obtain vs where vs: "unmarshalSlice allOfListJson = Inr vs" "length vs = 2"
    and m: "unmarshalMap (vs ! 1) = Inr typeDescJson"
    by (auto simp: maybeParseInheritance_def split: sum.splits if_splits)
  from vs(2) have "vs ! 1 \<in> set vs" by simp
  with vs(1) have "jsize (vs ! 1) < jsize allOfListJson" by (rule jsize_unmarshalSlice)
  moreover from m have "msize typeDescJson < jsize (vs ! 1)" by (rule msize_unmarshalMap)
  moreover from Some have "jsize allOfListJson \<le> msize descMap" by (rule jsize_mlookup)
  ultimately show ?thesis by simp
qed

section \<open>The type emitter\<close>

text \<open>
  The block that fills \<^verbatim>\<open>requiredMap\<close>, as \<open>requiredSet\<close>: the map is the list of the
  keys set to true, empty without a \<^verbatim>\<open>required\<close> key. \<^verbatim>\<open>r.(string)\<close> panics on an
  entry that is not a string.
\<close>

fun requiredLoop :: "string list \<Rightarrow> json list \<Rightarrow> error + string list" where
  "requiredLoop requiredMap [] = Inr requiredMap"
| "requiredLoop requiredMap (r # required) =
     (case r of
        JString s \<Rightarrow> requiredLoop (s # requiredMap) required
      | _ \<Rightarrow> Inl Panic)"

definition requiredSet :: "gomap \<Rightarrow> error + string list" where
  "requiredSet descMap =
     (case mlookup descMap ''required'' of
        None \<Rightarrow> Inr []
      | Some requiredJson \<Rightarrow>
          (case unmarshalSlice requiredJson of
             Inl e \<Rightarrow> Inl Fatal
           | Inr required \<Rightarrow> requiredLoop [] required))"

text \<open>
  \<^verbatim>\<open>emitToplevelType\<close>, with the loop over the property names as \<open>emitProps\<close>. The
  loop state is the text built so far (\<^verbatim>\<open>b\<close>) and \<^verbatim>\<open>bodyType\<close>; a \<^verbatim>\<open>continue\<close> goes on
  with the state unchanged. A key that is not in a map of raw messages gives a nil
  message, on which \<^verbatim>\<open>json.Unmarshal\<close> fails.
\<close>

function emitToplevelType :: "string \<Rightarrow> json \<Rightarrow> error + string"
  and emitProps :: "string \<Rightarrow> gomap \<Rightarrow> string list \<Rightarrow> string list \<Rightarrow> string \<times> string
                      \<Rightarrow> error + string \<times> string" where
  "emitToplevelType typeName descJson =
     (case unmarshalMap descJson of
        Inl e \<Rightarrow> Inl Fatal
      | Inr descMap0 \<Rightarrow>
     (case maybeParseInheritance descMap0 of
        Inl e \<Rightarrow> Inl e
      | Inr (baseType, descMap) \<Rightarrow>
     (case mlookup descMap ''type'' of
        None \<Rightarrow> Inl Fatal
      | Some typeJson \<Rightarrow>
     (case unmarshalString typeJson of
        Inl e \<Rightarrow> Inl Fatal
      | Inr descTypeString \<Rightarrow>
          if descTypeString = ''string'' then Inr (''type '' @ typeName @ '' string'' @ nl)
          else if descTypeString = ''object'' then
            (let b = ''type '' @ typeName @ '' struct {'' @ nl @
                     (if length baseType > 0 then tab @ baseType @ nl @ nl else [])
             in case mlookup descMap ''properties'' of
                  None \<Rightarrow> Inr (b @ ''}'' @ nl)
                | Some propsJson \<Rightarrow>
               (case unmarshalMap propsJson of
                  Inl e \<Rightarrow> Inl Fatal
                | Inr propsMapOfJson \<Rightarrow>
               (case keysInOrder propsJson of
                  Inl e \<Rightarrow> Inl Fatal
                | Inr propsNamesInOrder \<Rightarrow>
               (case requiredSet descMap of
                  Inl e \<Rightarrow> Inl e
                | Inr requiredMap \<Rightarrow>
               (case emitProps typeName propsMapOfJson requiredMap propsNamesInOrder (b, []) of
                  Inl e \<Rightarrow> Inl e
                | Inr (b', bodyType) \<Rightarrow>
                    Inr (b' @ ''}'' @ nl @
                         (if length bodyType > 0 then nl @ bodyType else [])))))))
          else Inl Fatal))))"
| "emitProps typeName propsMapOfJson requiredMap [] (b, bodyType) = Inr (b, bodyType)"
| "emitProps typeName propsMapOfJson requiredMap (propName # rest) (b, bodyType) =
     (if propName = ''type'' \<and>
         (typeName = ''Request'' \<or> typeName = ''Response'' \<or> typeName = ''Event'')
      then emitProps typeName propsMapOfJson requiredMap rest (b, bodyType)
      else if propName = ''command'' \<and> typeName \<noteq> ''Request'' \<and> typeName \<noteq> ''Response''
      then emitProps typeName propsMapOfJson requiredMap rest (b, bodyType)
      else if propName = ''event'' \<and> typeName \<noteq> ''Event''
      then emitProps typeName propsMapOfJson requiredMap rest (b, bodyType)
      else if propName = ''arguments'' \<and> typeName = ''Request''
      then emitProps typeName propsMapOfJson requiredMap rest (b, bodyType)
      else
        (case (case mlookup propsMapOfJson propName of
                 None \<Rightarrow> Inl Fatal
               | Some raw \<Rightarrow> unmarshalMap raw) of
           Inl e \<Rightarrow> Inl Fatal
         | Inr propDesc \<Rightarrow>
             if propName = ''body'' then
               (if typeName = ''Response'' \<or> typeName = ''Event''
                then emitProps typeName propsMapOfJson requiredMap rest (b, bodyType)
                else
                  (case (case mlookup propDesc ''$ref'' of
                           Some ref \<Rightarrow>
                             (case parseRef ref of
                                Inl e \<Rightarrow> Inl e
                              | Inr bodyTypeName \<Rightarrow> Inr (bodyTypeName, bodyType))
                         | None \<Rightarrow>
                             (case mlookup propsMapOfJson ''body'' of
                                None \<Rightarrow> Inl Fatal
                              | Some bodyJson \<Rightarrow>
                                  (case emitToplevelType (typeName @ ''Body'') bodyJson of
                                     Inl e \<Rightarrow> Inl e
                                   | Inr bodyType' \<Rightarrow> Inr (typeName @ ''Body'', bodyType')))) of
                     Inl e \<Rightarrow> Inl e
                   | Inr (bodyTypeName, bodyType') \<Rightarrow>
                       emitProps typeName propsMapOfJson requiredMap rest
                         (if ''body'' \<in> set requiredMap
                          then b @ tab @ ''Body'' @ '' '' @ bodyTypeName @
                               '' `json:'' @ dq @ ''body'' @ dq @ ''`'' @ nl
                          else b @ tab @ ''Body'' @ '' '' @ bodyTypeName @
                               '' `json:'' @ dq @ ''body,omitempty'' @ dq @ ''`'' @ nl,
                          bodyType')))
             else
               (case parsePropertyType propDesc of
                  Inl e \<Rightarrow> Inl e
                | Inr goType \<Rightarrow>
                    (let jsonTag = ''`json:'' @ dq @ propName @
                           (if propName \<in> set requiredMap then dq @ ''`''
                            else '',omitempty'' @ dq @ ''`'')
                     in emitProps typeName propsMapOfJson requiredMap rest
                          (b @ tab @ goFieldName propName @ '' '' @ goType @ '' '' @ jsonTag @ nl,
                           bodyType)))))"
  by pat_completeness auto

lemma msize_properties:
  assumes "unmarshalMap descJson = Inr descMap0"
    and "maybeParseInheritance descMap0 = Inr (baseType, descMap)"
    and "mlookup descMap ''properties'' = Some propsJson"
    and "unmarshalMap propsJson = Inr propsMapOfJson"
  shows "Suc (msize propsMapOfJson) < jsize descJson"
proof -
  from assms(4) have "msize propsMapOfJson < jsize propsJson" by (rule msize_unmarshalMap)
  moreover from assms(3) have "jsize propsJson \<le> msize descMap" by (rule jsize_mlookup)
  moreover from assms(2) have "msize descMap \<le> msize descMap0"
    by (rule msize_maybeParseInheritance)
  moreover from assms(1) have "msize descMap0 < jsize descJson" by (rule msize_unmarshalMap)
  ultimately show ?thesis by simp
qed

termination emitToplevelType
proof (relation "measures
    [\<lambda>x. case x of Inl (t, j) \<Rightarrow> jsize j | Inr (t, pm, rq, names, st) \<Rightarrow> Suc (msize pm),
     \<lambda>x. case x of Inl (t, j) \<Rightarrow> 0 | Inr (t, pm, rq, names, st) \<Rightarrow> length names]",
    goal_cases)
  case (2 typeName descJson descMap0 ba baseType descMap)
  then show ?case using msize_properties [of descJson descMap0 baseType descMap] by auto
next
  case (8 typeName propsMapOfJson requiredMap propName rest b bodyType)
  then show ?case using jsize_mlookup [of propsMapOfJson "''body''"] by auto
qed simp_all

declare emitToplevelType.simps [simp del]

section \<open>The driver\<close>

definition preamble :: string where
  "preamble = concat (map (\<lambda>l. l @ nl)
     [''// Copyright 2019 Google LLC'',
      ''//'',
      ''// Licensed under the Apache License, Version 2.0 (the '' @ dq @ ''License'' @ dq @ '');'',
      ''// you may not use this file except in compliance with the License.'',
      ''// You may obtain a copy of the License at'',
      ''//'',
      ''//     https://www.apache.org/licenses/LICENSE-2.0'',
      ''//'',
      ''// Unless required by applicable law or agreed to in writing, software'',
      ''// distributed under the License is distributed on an '' @ dq @ ''AS IS'' @ dq @ '' BASIS,'',
      ''// WITHOUT WARRANTIES OR CONDITIONS OF ANY KIND, either express or implied.'',
      ''// See the License for the specific language governing permissions and'',
      ''// limitations under the License.'',
      [],
      ''// DO NOT EDIT: This file is auto-generated.'',
      ''// DAP spec: https://microsoft.github.io/debug-adapter-protocol/specification'',
      ''// See cmd/gentypes/README.md for additional details.'',
      [],
      ''package dap'',
      [],
      ''// Message is an interface that all DAP message types implement. It's not part'',
      ''// of the protocol but is used to enforce static typing in Go code.'',
      ''//'',
      ''// Note: the DAP type '' @ dq @ ''Message'' @ dq @ '' (which is used in the body of ErrorResponse)'',
      ''// is renamed to ErrorMessage to avoid collision with this interface.'',
      ''type Message interface {'',
      tab @ ''isMessage()'',
      ''}'',
      []])"

text \<open>The two loops of \<^verbatim>\<open>main\<close> over the definition keys, on the text built so far.\<close>

fun emitTypes :: "gomap \<Rightarrow> string list \<Rightarrow> string \<Rightarrow> error + string" where
  "emitTypes typeMap [] b = Inr b"
| "emitTypes typeMap (typeName # rest) b =
     (case (case mlookup typeMap typeName of
              None \<Rightarrow> Inl Fatal
            | Some descJson \<Rightarrow> emitToplevelType (replaceGoTypename typeName) descJson) of
        Inl e \<Rightarrow> Inl e
      | Inr text \<Rightarrow> emitTypes typeMap rest (b @ text @ nl))"

fun emitMarkers :: "string list \<Rightarrow> string \<Rightarrow> string" where
  "emitMarkers [] b = b"
| "emitMarkers (typeName0 # rest) b =
     (let typeName = replaceGoTypename typeName0
      in if suffix ''Event'' typeName \<or> suffix ''Request'' typeName \<or>
            suffix ''Response'' typeName \<or> typeName = ''ProtocolMessage''
         then emitMarkers rest (b @ ''func ('' @ typeName @ '') isMessage() {}'' @ nl)
         else emitMarkers rest b)"

text \<open>
  The text handed to the formatter (\<^verbatim>\<open>wholeFile\<close>), from the decoded input. A missing
  \<^verbatim>\<open>definitions\<close> key gives a nil message, on which \<^verbatim>\<open>json.Unmarshal\<close> fails.
\<close>

definition wholeFile :: "json \<Rightarrow> error + string" where
  "wholeFile inputData =
     (case unmarshalMap inputData of
        Inl e \<Rightarrow> Inl Fatal
      | Inr m \<Rightarrow>
     (case mlookup m ''definitions'' of
        None \<Rightarrow> Inl Fatal
      | Some definitions \<Rightarrow>
     (case unmarshalMap definitions of
        Inl e \<Rightarrow> Inl Fatal
      | Inr typeMap \<Rightarrow>
     (case keysInOrder definitions of
        Inl e \<Rightarrow> Inl Fatal
      | Inr typeNames \<Rightarrow>
     (case emitTypes typeMap typeNames preamble of
        Inl e \<Rightarrow> Inl e
      | Inr b \<Rightarrow> Inr (emitMarkers typeNames b))))))"




section \<open>The reader returns the keys in source order\<close>

text \<open>
  Skipping the tokens of one value consumes exactly that value, whatever follows; so
  the key loop sees each key of the object once, in order.
\<close>

lemma skipLoop_close:
  "c = CHR '']'' \<or> c = CHR ''}'' \<Longrightarrow> skipLoop (Delim c # d) = (None, d)"
  by (auto simp: skipLoop.simps [of "Delim c # d"])

lemma skipLoop_skipped:
  "skipValue (ts @ d) = (None, d) \<Longrightarrow> skipLoop (ts @ d) = skipLoop d"
  by (simp add: skipLoop.simps [of "ts @ d"])

lemma skipLoop_values:
  assumes "\<And>v d. v \<in> set vs \<Longrightarrow> skipValue (tokens v @ d) = (None, d)"
  shows "skipLoop (concat (map tokens vs) @ d) = skipLoop d"
  using assms
proof (induction vs)
  case Nil
  then show ?case by simp
next
  case (Cons v vs)
  have "skipLoop (tokens v @ (concat (map tokens vs) @ d)) = skipLoop (concat (map tokens vs) @ d)"
    by (rule skipLoop_skipped) (simp add: Cons.prems)
  with Cons show ?case by simp
qed

lemma skipLoop_members:
  assumes "\<And>k v d. (k, v) \<in> set kvs \<Longrightarrow> skipValue (tokens v @ d) = (None, d)"
  shows "skipLoop (concat (map (\<lambda>(k, v). TString k # tokens v) kvs) @ d) = skipLoop d"
  using assms
proof (induction kvs)
  case Nil
  then show ?case by simp
next
  case (Cons kv kvs)
  obtain k v where kv: "kv = (k, v)" by (cases kv)
  let ?rest = "concat (map (\<lambda>(k, v). TString k # tokens v) kvs) @ d"
  have "skipLoop (TString k # tokens v @ ?rest) = skipLoop (tokens v @ ?rest)"
    by (simp add: skipLoop.simps [of "TString k # tokens v @ ?rest"])
  also have "\<dots> = skipLoop ?rest"
    by (rule skipLoop_skipped) (rule Cons.prems [of k v], simp add: kv)
  also have "\<dots> = skipLoop d"
  proof (rule Cons.IH)
    fix k' v' d'
    assume "(k', v') \<in> set kvs"
    then show "skipValue (tokens v' @ d') = (None, d')"
      using Cons.prems [of k' v' d'] by simp
  qed
  finally show ?case by (simp add: kv)
qed

lemma skipValue_tokens: "skipValue (tokens v @ d) = (None, d)"
proof (induction v arbitrary: d)
  case (JArray vs)
  then show ?case
    using skipLoop_values [of vs "Delim (CHR '']'') # d"] by (simp add: skipLoop_close)
next
  case (JObject kvs)
  have "skipValue (tokens v @ d) = (None, d)" if "(k, v) \<in> set kvs" for k v d
    using JObject that by (auto simp: snds.simps)
  then show ?case
    using skipLoop_members [of kvs "Delim (CHR ''}'') # d"] by (simp add: skipLoop_close)
qed simp_all

lemma keysLoop_members:
  "keysLoop keys (concat (map (\<lambda>(k, v). TString k # tokens v) kvs) @ [Delim (CHR ''}'')])
     = Inr (keys @ map fst kvs)"
proof (induction kvs arbitrary: keys)
  case Nil
  then show ?case by simp
next
  case (Cons kv kvs)
  obtain k v where kv: "kv = (k, v)" by (cases kv)
  show ?case
    using Cons [of "keys @ [k]"]
    by (simp add: kv skipValue_tokens)
qed

lemma keysInOrder_object: "keysInOrder (JObject kvs) = Inr (map fst kvs)"
  using keysLoop_members [of "[]" kvs] by (simp add: keysInOrder_def)

lemma keysInOrder_Inr: "keysInOrder j = Inr names \<Longrightarrow> \<exists>kvs. j = JObject kvs \<and> names = map fst kvs"
  by (cases j) (auto simp: keysInOrder_def keysLoop_members [of "[]", simplified])

section \<open>What the emitter writes\<close>

text \<open>
  Notions for stating the emitter's behaviour. \<open>suppression_table\<close> is the table of the
  specification (field name and owner type name); \<open>dropped\<close> adds the \<^verbatim>\<open>body\<close> of
  \<^verbatim>\<open>Response\<close> and \<^verbatim>\<open>Event\<close>. \<open>fieldType\<close> is the Go type of a field that is kept,
  \<open>fieldLine\<close> its line of text, \<open>secondaryType\<close> the result of emitting an inline
  \<^verbatim>\<open>body\<close> (none when the body is a reference), and \<open>structHeader\<close> the opening of a
  struct with its embedded base type.
\<close>

definition suppression_table :: "string \<Rightarrow> string \<Rightarrow> bool" where
  "suppression_table propName typeName =
     (propName = ''type'' \<and> typeName \<in> {''Request'', ''Response'', ''Event''} \<or>
      propName = ''command'' \<and> typeName \<notin> {''Request'', ''Response''} \<or>
      propName = ''event'' \<and> typeName \<noteq> ''Event'' \<or>
      propName = ''arguments'' \<and> typeName = ''Request'')"

definition dropped :: "string \<Rightarrow> string \<Rightarrow> bool" where
  "dropped typeName propName =
     (suppression_table propName typeName \<or>
      propName = ''body'' \<and> typeName \<in> {''Response'', ''Event''})"

definition fieldType :: "string \<Rightarrow> gomap \<Rightarrow> string \<Rightarrow> error + string" where
  "fieldType typeName propsMapOfJson propName =
     (case (case mlookup propsMapOfJson propName of
              None \<Rightarrow> Inl Fatal
            | Some raw \<Rightarrow> unmarshalMap raw) of
        Inl e \<Rightarrow> Inl Fatal
      | Inr propDesc \<Rightarrow>
          if propName = ''body'' then
            (case mlookup propDesc ''$ref'' of
               Some ref \<Rightarrow> parseRef ref
             | None \<Rightarrow> Inr (typeName @ ''Body''))
          else parsePropertyType propDesc)"

definition secondaryType :: "string \<Rightarrow> gomap \<Rightarrow> (error + string) option" where
  "secondaryType typeName propsMapOfJson =
     (case mlookup propsMapOfJson ''body'' of
        None \<Rightarrow> None
      | Some bodyJson \<Rightarrow>
          (case unmarshalMap bodyJson of
             Inl e \<Rightarrow> None
           | Inr propDesc \<Rightarrow>
               (case mlookup propDesc ''$ref'' of
                  Some ref \<Rightarrow> None
                | None \<Rightarrow> Some (emitToplevelType (typeName @ ''Body'') bodyJson))))"

definition fieldLine :: "string list \<Rightarrow> string \<Rightarrow> string \<Rightarrow> string" where
  "fieldLine requiredMap propName goType =
     tab @ goFieldName propName @ '' '' @ goType @ '' `json:'' @ dq @ propName @
     (if propName \<in> set requiredMap then [] else '',omitempty'') @ dq @ ''`'' @ nl"

definition structHeader :: "string \<Rightarrow> string \<Rightarrow> string" where
  "structHeader typeName baseType =
     ''type '' @ typeName @ '' struct {'' @ nl @
     (if baseType \<noteq> [] then tab @ baseType @ nl @ nl else [])"

lemma goFieldName_body: "goFieldName ''body'' = ''Body''"
  by (simp add: goFieldName_def Title_def replaceAll_def isSeparator_def toTitle_def)

declare emitProps.simps(2) [simp del]

lemma emitProps_suppressed:
  "suppression_table p t \<Longrightarrow> emitProps t pm rq (p # rest) st = emitProps t pm rq rest st"
  by (cases st) (auto simp: suppression_table_def emitProps.simps(2))

lemma not_suppressed_conds:
  assumes "\<not> suppression_table p t"
  shows "(p = ''type'' \<and> (t = ''Request'' \<or> t = ''Response'' \<or> t = ''Event'')) = False"
    and "(p = ''command'' \<and> t \<noteq> ''Request'' \<and> t \<noteq> ''Response'') = False"
    and "(p = ''event'' \<and> t \<noteq> ''Event'') = False"
    and "(p = ''arguments'' \<and> t = ''Request'') = False"
  using assms by (auto simp: suppression_table_def)

lemma emitProps_not_suppressed:
  assumes "\<not> suppression_table p t"
  shows "emitProps t pm rq (p # rest) (b, bt) =
        (case (case mlookup pm p of
                 None \<Rightarrow> Inl Fatal
               | Some raw \<Rightarrow> unmarshalMap raw) of
           Inl e \<Rightarrow> Inl Fatal
         | Inr propDesc \<Rightarrow>
             if p = ''body'' then
               (if t = ''Response'' \<or> t = ''Event''
                then emitProps t pm rq rest (b, bt)
                else
                  (case (case mlookup propDesc ''$ref'' of
                           Some ref \<Rightarrow>
                             (case parseRef ref of
                                Inl e \<Rightarrow> Inl e
                              | Inr bodyTypeName \<Rightarrow> Inr (bodyTypeName, bt))
                         | None \<Rightarrow>
                             (case mlookup pm ''body'' of
                                None \<Rightarrow> Inl Fatal
                              | Some bodyJson \<Rightarrow>
                                  (case emitToplevelType (t @ ''Body'') bodyJson of
                                     Inl e \<Rightarrow> Inl e
                                   | Inr bodyType' \<Rightarrow> Inr (t @ ''Body'', bodyType')))) of
                     Inl e \<Rightarrow> Inl e
                   | Inr (bodyTypeName, bodyType') \<Rightarrow>
                       emitProps t pm rq rest (b @ fieldLine rq ''body'' bodyTypeName, bodyType')))
             else
               (case parsePropertyType propDesc of
                  Inl e \<Rightarrow> Inl e
                | Inr goType \<Rightarrow> emitProps t pm rq rest (b @ fieldLine rq p goType, bt)))"
  unfolding emitProps.simps(2) not_suppressed_conds [OF assms] if_False Let_def fieldLine_def
    goFieldName_body
  by (simp cong: sum.case_cong option.case_cong if_cong)

lemma emitProps_body_skipped:
  assumes "t = ''Response'' \<or> t = ''Event''"
  shows "emitProps t pm rq (''body'' # rest) st =
           (case (case mlookup pm ''body'' of None \<Rightarrow> Inl Fatal | Some raw \<Rightarrow> unmarshalMap raw) of
              Inl e \<Rightarrow> Inl Fatal
            | Inr propDesc \<Rightarrow> emitProps t pm rq rest st)"
proof -
  have "\<not> suppression_table ''body'' t" by (simp add: suppression_table_def)
  then show ?thesis
    using assms by (cases st) (auto simp: emitProps_not_suppressed split: sum.splits)
qed

lemma emitProps_kept:
  assumes "\<not> dropped t p"
  shows "emitProps t pm rq (p # rest) (b, bt) =
           (case fieldType t pm p of
              Inl e \<Rightarrow> Inl e
            | Inr ty \<Rightarrow>
                if p = ''body'' then
                  (case secondaryType t pm of
                     None \<Rightarrow> emitProps t pm rq rest (b @ fieldLine rq p ty, bt)
                   | Some (Inl e) \<Rightarrow> Inl e
                   | Some (Inr text) \<Rightarrow> emitProps t pm rq rest (b @ fieldLine rq p ty, text))
                else emitProps t pm rq rest (b @ fieldLine rq p ty, bt))"
proof -
  from assms have ns: "\<not> suppression_table p t" by (simp add: dropped_def)
  show ?thesis
  proof (cases "p = ''body''")
    case True
    with assms have t: "t \<noteq> ''Response''" "t \<noteq> ''Event''" by (auto simp: dropped_def)
    show ?thesis
      unfolding emitProps_not_suppressed [OF ns]
      by (simp add: True t fieldType_def secondaryType_def split: sum.splits option.splits)
  next
    case False
    show ?thesis
      unfolding emitProps_not_suppressed [OF ns]
      by (simp add: False fieldType_def split: sum.splits option.splits)
  qed
qed

lemma emitProps_dropped:
  assumes "dropped t p" and "emitProps t pm rq (p # rest) st = Inr r"
  shows "emitProps t pm rq rest st = Inr r"
proof (cases "suppression_table p t")
  case True
  with assms(2) show ?thesis by (simp add: emitProps_suppressed)
next
  case False
  with assms(1) have "p = ''body''" "t = ''Response'' \<or> t = ''Event''"
    by (auto simp: dropped_def)
  with assms(2) show ?thesis
    by (auto simp: emitProps_body_skipped split: sum.splits)
qed

lemma emitProps_result:
  assumes "emitProps t pm rq names (b, bt) = Inr (b', bt')"
  shows "\<exists>tys. list_all2 (\<lambda>p ty. fieldType t pm p = Inr ty) (filter (\<lambda>p. \<not> dropped t p) names) tys \<and>
           b' = b @ concat (map2 (fieldLine rq) (filter (\<lambda>p. \<not> dropped t p) names) tys) \<and>
           (if ''body'' \<in> set (filter (\<lambda>p. \<not> dropped t p) names)
            then (case secondaryType t pm of None \<Rightarrow> bt' = bt | Some r \<Rightarrow> r = Inr bt')
            else bt' = bt)"
  using assms
proof (induction names arbitrary: b bt)
  case Nil
  then show ?case by simp
next
  case (Cons p names)
  let ?kept = "filter (\<lambda>p. \<not> dropped t p) names"
  show ?case
  proof (cases "dropped t p")
    case True
    from emitProps_dropped [OF True Cons.prems]
    have "emitProps t pm rq names (b, bt) = Inr (b', bt')" .
    from Cons.IH [OF this] True show ?thesis by simp
  next
    case False
    from Cons.prems obtain ty where ty: "fieldType t pm p = Inr ty"
      by (auto simp: emitProps_kept [OF False] split: sum.splits)
    define bt1 where "bt1 = (if p = ''body''
        then (case secondaryType t pm of Some (Inr text) \<Rightarrow> text | _ \<Rightarrow> bt) else bt)"
    have step: "(if p = ''body'' then
                  (case secondaryType t pm of
                     None \<Rightarrow> emitProps t pm rq names (b @ fieldLine rq p ty, bt)
                   | Some (Inl e) \<Rightarrow> Inl e
                   | Some (Inr text) \<Rightarrow> emitProps t pm rq names (b @ fieldLine rq p ty, text))
                else emitProps t pm rq names (b @ fieldLine rq p ty, bt)) = Inr (b', bt')"
      using Cons.prems unfolding emitProps_kept [OF False] ty by simp
    have run: "emitProps t pm rq names (b @ fieldLine rq p ty, bt1) = Inr (b', bt')"
      using step by (auto simp: bt1_def split: option.splits sum.splits if_splits)
    have sec: "secondaryType t pm = None \<or> secondaryType t pm = Some (Inr bt1)" if "p = ''body''"
      using step that by (auto simp: bt1_def split: option.splits sum.splits)
    from Cons.IH [OF run] obtain tys where
      tys: "list_all2 (\<lambda>p ty. fieldType t pm p = Inr ty) ?kept tys"
      and b': "b' = (b @ fieldLine rq p ty) @ concat (map2 (fieldLine rq) ?kept tys)"
      and bt': "if ''body'' \<in> set ?kept
                then (case secondaryType t pm of None \<Rightarrow> bt' = bt1 | Some r \<Rightarrow> r = Inr bt')
                else bt' = bt1"
      by blast
    have "list_all2 (\<lambda>p ty. fieldType t pm p = Inr ty) (filter (\<lambda>p. \<not> dropped t p) (p # names)) (ty # tys)"
      using False ty tys by simp
    moreover have "b' = b @ concat (map2 (fieldLine rq) (filter (\<lambda>p. \<not> dropped t p) (p # names)) (ty # tys))"
      using False b' by simp
    moreover have "if ''body'' \<in> set (filter (\<lambda>p. \<not> dropped t p) (p # names))
            then (case secondaryType t pm of None \<Rightarrow> bt' = bt | Some r \<Rightarrow> r = Inr bt')
            else bt' = bt"
    proof (cases "p = ''body''")
      case True
      with sec bt' False show ?thesis
        by (auto simp: bt1_def split: option.splits if_splits)
    next
      case pb: False
      then have "bt1 = bt" by (simp add: bt1_def)
      with bt' pb False show ?thesis by (auto split: if_splits)
    qed
    ultimately show ?thesis by blast
  qed
qed

lemma emitToplevelType_resolved:
  assumes "unmarshalMap j = Inr dm0"
    and "maybeParseInheritance dm0 = Inr (base, dm)"
    and "mlookup dm ''type'' = Some tj"
    and "unmarshalString tj = Inr ds"
  shows "emitToplevelType t j =
          (if ds = ''string'' then Inr (''type '' @ t @ '' string'' @ nl)
           else if ds = ''object'' then
             (case mlookup dm ''properties'' of
                None \<Rightarrow> Inr (structHeader t base @ ''}'' @ nl)
              | Some propsJson \<Rightarrow>
                 (case unmarshalMap propsJson of
                    Inl e \<Rightarrow> Inl Fatal
                  | Inr propsMapOfJson \<Rightarrow>
                 (case keysInOrder propsJson of
                    Inl e \<Rightarrow> Inl Fatal
                  | Inr propsNamesInOrder \<Rightarrow>
                 (case requiredSet dm of
                    Inl e \<Rightarrow> Inl e
                  | Inr requiredMap \<Rightarrow>
                 (case emitProps t propsMapOfJson requiredMap propsNamesInOrder
                         (structHeader t base, []) of
                    Inl e \<Rightarrow> Inl e
                  | Inr (b', bodyType) \<Rightarrow>
                      Inr (b' @ ''}'' @ nl @ (if bodyType \<noteq> [] then nl @ bodyType else [])))))))
           else Inl Fatal)"
  by (subst emitToplevelType.simps)
    (simp add: assms Let_def structHeader_def cong: sum.case_cong option.case_cong)

lemma emitToplevelType_Inr:
  assumes "emitToplevelType t j = Inr out"
  obtains dm0 base dm tj ds where "unmarshalMap j = Inr dm0"
    and "maybeParseInheritance dm0 = Inr (base, dm)"
    and "mlookup dm ''type'' = Some tj"
    and "unmarshalString tj = Inr ds"
    and "ds = ''string'' \<or> ds = ''object''"
  using assms unfolding emitToplevelType.simps [of t j]
  by (auto split: sum.splits option.splits if_splits prod.splits)

lemma emitToplevelType_fields:
  assumes out: "emitToplevelType t j = Inr out"
    and "unmarshalMap j = Inr dm0"
    and "maybeParseInheritance dm0 = Inr (base, dm)"
    and "mlookup dm ''type'' = Some tj"
    and "unmarshalString tj = Inr ''object''"
    and "mlookup dm ''properties'' = Some pj"
  shows "\<exists>props rq b' bt'. pj = JObject props \<and> requiredSet dm = Inr rq \<and>
           emitProps t props rq (map fst props) (structHeader t base, []) = Inr (b', bt') \<and>
           out = b' @ ''}'' @ nl @ (if bt' \<noteq> [] then nl @ bt' else [])"
proof -
  from out have *: "(case unmarshalMap pj of
                    Inl e \<Rightarrow> Inl Fatal
                  | Inr propsMapOfJson \<Rightarrow>
                 (case keysInOrder pj of
                    Inl e \<Rightarrow> Inl Fatal
                  | Inr propsNamesInOrder \<Rightarrow>
                 (case requiredSet dm of
                    Inl e \<Rightarrow> Inl e
                  | Inr requiredMap \<Rightarrow>
                 (case emitProps t propsMapOfJson requiredMap propsNamesInOrder
                         (structHeader t base, []) of
                    Inl e \<Rightarrow> Inl e
                  | Inr (b', bodyType) \<Rightarrow>
                      Inr (b' @ ''}'' @ nl @ (if bodyType \<noteq> [] then nl @ bodyType else [])))))) = Inr out"
    unfolding emitToplevelType_resolved [OF assms(2-5)] assms(6) by simp
  then obtain names where names: "keysInOrder pj = Inr names"
    by (auto split: sum.splits)
  then obtain props where props: "pj = JObject props" "names = map fst props"
    by (auto dest: keysInOrder_Inr)
  from * obtain rq b' bt' where "requiredSet dm = Inr rq"
    and "emitProps t props rq (map fst props) (structHeader t base, []) = Inr (b', bt')"
    and "out = b' @ ''}'' @ nl @ (if bt' \<noteq> [] then nl @ bt' else [])"
    unfolding props(1) keysInOrder_object
    by (auto split: sum.splits prod.splits)
  with props(1) show ?thesis by blast
qed

lemma fieldLine_nonempty: "fieldLine rq p ty \<noteq> []"
  by (simp add: fieldLine_def tab_def)


lemma emitProps_tail:
  assumes "emitProps t pm rq (p # names) st = Inr r"
  shows "\<exists>st'. emitProps t pm rq names st' = Inr r"
proof (cases "dropped t p")
  case True
  from emitProps_dropped [OF True assms] show ?thesis by blast
next
  case False
  obtain b bt where st: "st = (b, bt)" by (cases st)
  from assms show ?thesis
    unfolding st emitProps_kept [OF False]
    by (auto split: sum.splits if_splits option.splits)
qed

lemma emitProps_decoded:
  assumes "emitProps t pm rq names st = Inr r" and "p \<in> set names"
    and "\<not> suppression_table p t"
  shows "\<exists>raw propDesc. mlookup pm p = Some raw \<and> unmarshalMap raw = Inr propDesc"
  using assms(1,2)
proof (induction names arbitrary: st)
  case Nil
  then show ?case by simp
next
  case (Cons q names)
  show ?case
  proof (cases "q = p")
    case True
    obtain b bt where st: "st = (b, bt)" by (cases st)
    from Cons.prems(1) show ?thesis
      unfolding True st emitProps_not_suppressed [OF assms(3)]
      by (auto split: sum.splits option.splits)
  next
    case False
    from emitProps_tail [OF Cons.prems(1)] obtain st' where
      "emitProps t pm rq names st' = Inr r" by blast
    moreover from False Cons.prems(2) have "p \<in> set names" by simp
    ultimately show ?thesis by (rule Cons.IH)
  qed
qed


section \<open>The emitted text\<close>

text \<open>
  The text of a struct is its header, one line per property that is kept, the closing
  brace, and the secondary body type if there is one. The text of a run is the
  preamble, the blocks of the definitions, and the marker functions.
\<close>

lemma emitToplevelType_shape:
  assumes "emitToplevelType t j = Inr out"
    and "unmarshalMap j = Inr dm0"
    and "maybeParseInheritance dm0 = Inr (base, dm)"
    and "mlookup dm ''type'' = Some tj"
    and "unmarshalString tj = Inr ''object''"
    and "mlookup dm ''properties'' = Some pj"
  shows "\<exists>props rq tys bt.
           pj = JObject props \<and> requiredSet dm = Inr rq \<and>
           list_all2 (\<lambda>p ty. fieldType t props p = Inr ty)
             (filter (\<lambda>p. \<not> dropped t p) (map fst props)) tys \<and>
           out = structHeader t base @
                 concat (map2 (fieldLine rq) (filter (\<lambda>p. \<not> dropped t p) (map fst props)) tys) @
                 ''}'' @ nl @ (if bt \<noteq> [] then nl @ bt else []) \<and>
           (if ''body'' \<in> set (filter (\<lambda>p. \<not> dropped t p) (map fst props))
            then (case secondaryType t props of None \<Rightarrow> bt = [] | Some r \<Rightarrow> r = Inr bt)
            else bt = [])"
proof -
  from emitToplevelType_fields [OF assms]
  obtain props rq b' bt where pj: "pj = JObject props" and rq: "requiredSet dm = Inr rq"
    and run: "emitProps t props rq (map fst props) (structHeader t base, []) = Inr (b', bt)"
    and out: "out = b' @ ''}'' @ nl @ (if bt \<noteq> [] then nl @ bt else [])"
    by blast
  from emitProps_result [OF run]
  obtain tys where "list_all2 (\<lambda>p ty. fieldType t props p = Inr ty)
             (filter (\<lambda>p. \<not> dropped t p) (map fst props)) tys"
    and "b' = structHeader t base @
           concat (map2 (fieldLine rq) (filter (\<lambda>p. \<not> dropped t p) (map fst props)) tys)"
    and "if ''body'' \<in> set (filter (\<lambda>p. \<not> dropped t p) (map fst props))
         then (case secondaryType t props of None \<Rightarrow> bt = [] | Some r \<Rightarrow> r = Inr bt)
         else bt = []"
    by blast
  with pj rq out show ?thesis by (intro exI [of _ props] exI [of _ rq] exI [of _ tys] exI [of _ bt]) simp
qed

lemma emitToplevelType_prefix:
  assumes "emitToplevelType t j = Inr out"
  shows "prefix (''type '' @ t @ '' '') out"
proof -
  from assms obtain dm0 base dm tj ds where r: "unmarshalMap j = Inr dm0"
    "maybeParseInheritance dm0 = Inr (base, dm)" "mlookup dm ''type'' = Some tj"
    "unmarshalString tj = Inr ds" and ds: "ds = ''string'' \<or> ds = ''object''"
    by (rule emitToplevelType_Inr)
  show ?thesis
  proof (cases "ds = ''object'' \<and> mlookup dm ''properties'' \<noteq> None")
    case True
    then obtain pj where "mlookup dm ''properties'' = Some pj" by auto
    from emitToplevelType_shape [OF assms r(1-3) r(4) [unfolded conjunct1 [OF True]] this]
    show ?thesis by (auto simp: structHeader_def prefix_def)
  next
    case False
    with assms ds show ?thesis
      unfolding emitToplevelType_resolved [OF r]
      by (auto simp: structHeader_def prefix_def split: if_splits)
  qed
qed

lemma emitMarkers_append: "emitMarkers names b = b @ emitMarkers names []"
proof (induction names arbitrary: b)
  case Nil
  then show ?case by simp
next
  case (Cons n names)
  show ?case
    using Cons [of "b @ ''func ('' @ replaceGoTypename n @ '') isMessage() {}'' @ nl"]
      Cons [of "''func ('' @ replaceGoTypename n @ '') isMessage() {}'' @ nl"] Cons [of b]
    by (simp add: Let_def)
qed

lemma emitTypes_result:
  assumes "emitTypes typeMap names b = Inr w"
  shows "\<exists>texts.
           list_all2 (\<lambda>typeName text. \<exists>descJson. mlookup typeMap typeName = Some descJson \<and>
                        emitToplevelType (replaceGoTypename typeName) descJson = Inr text)
             names texts \<and>
           w = b @ concat (map (\<lambda>text. text @ nl) texts)"
  using assms
proof (induction names arbitrary: b)
  case Nil
  then show ?case by simp
next
  case (Cons n names)
  from Cons.prems obtain d out where d: "mlookup typeMap n = Some d"
    and out: "emitToplevelType (replaceGoTypename n) d = Inr out"
    and rest: "emitTypes typeMap names (b @ out @ nl) = Inr w"
    by (auto split: option.splits sum.splits)
  from Cons.IH [OF rest] obtain texts where
    "list_all2 (\<lambda>typeName text. \<exists>descJson. mlookup typeMap typeName = Some descJson \<and>
                        emitToplevelType (replaceGoTypename typeName) descJson = Inr text)
             names texts"
    and "w = (b @ out @ nl) @ concat (map (\<lambda>text. text @ nl) texts)"
    by blast
  with d out show ?case by (intro exI [of _ "out # texts"]) simp
qed

lemma wholeFile_result:
  assumes "wholeFile inputData = Inr whole"
  shows "\<exists>m defs b. unmarshalMap inputData = Inr m \<and>
           mlookup m ''definitions'' = Some (JObject defs) \<and>
           emitTypes defs (map fst defs) preamble = Inr b \<and>
           whole = emitMarkers (map fst defs) b"
proof -
  from assms obtain m definitions typeMap typeNames b where m: "unmarshalMap inputData = Inr m"
    and d: "mlookup m ''definitions'' = Some definitions"
    and tm: "unmarshalMap definitions = Inr typeMap"
    and k: "keysInOrder definitions = Inr typeNames"
    and b: "emitTypes typeMap typeNames preamble = Inr b"
    and w: "whole = emitMarkers typeNames b"
    by (auto simp: wholeFile_def split: sum.splits option.splits)
  from k obtain defs where "definitions = JObject defs" "typeNames = map fst defs"
    by (auto dest: keysInOrder_Inr)
  with m d tm b w show ?thesis by auto
qed

lemma emitToplevelType_nonempty: "emitToplevelType t j = Inr out \<Longrightarrow> out \<noteq> []"
  using emitToplevelType_prefix [of t j out] by (auto simp: prefix_def)

lemma requiredLoop_set:
  "requiredLoop acc required = Inr rq \<Longrightarrow> set rq = set acc \<union> {p. JString p \<in> set required}"
proof (induction required arbitrary: acc)
  case Nil
  then show ?case by simp
next
  case (Cons r required)
  then obtain s where r: "r = JString s" by (cases r) auto
  with Cons.prems have "requiredLoop (s # acc) required = Inr rq" by simp
  from Cons.IH [OF this] r show ?case by auto
qed

text \<open>No name that the generator writes for a type is \<^verbatim>\<open>Message\<close>.\<close>

lemma replaceGoTypename_not_Message: "replaceGoTypename typeName \<noteq> ''Message''"
  by (simp add: replaceGoTypename_def)

lemma parseRef_not_Message: "parseRef ref = Inr n \<Longrightarrow> n \<noteq> ''Message''"
  by (cases ref) (auto simp: replaceGoTypename_not_Message split: if_splits)

lemma parsePropertyType_not_Message:
  assumes "parsePropertyType propValue = Inr goType"
  shows "goType \<noteq> ''Message''"
proof (cases "mlookup propValue ''$ref''")
  case (Some ref)
  with assms have "parseRef ref = Inr goType"
    by (simp add: parsePropertyType.simps [of propValue])
  then show ?thesis by (rule parseRef_not_Message)
next
  case None
  with assms show ?thesis
    by (auto simp: parsePropertyType.simps [of propValue]
        split: option.splits json.splits if_splits sum.splits)
qed

lemma body_name_not_Message: "t @ ''Body'' \<noteq> ''Message''"
proof
  assume "t @ ''Body'' = ''Message''"
  then have "last (t @ ''Body'') = last ''Message''" by simp
  then show False by simp
qed

lemma fieldType_not_Message: "fieldType t pm p = Inr ty \<Longrightarrow> ty \<noteq> ''Message''"
  by (auto simp: fieldType_def body_name_not_Message
      dest: parseRef_not_Message parsePropertyType_not_Message
      split: sum.splits option.splits if_splits)




section \<open>The words of a property name\<close>








section \<open>Example schemas\<close>

text \<open>
  A small schema for concrete runs: a type with two properties, one of them required;
  a type that inherits from it; the type \<^verbatim>\<open>Message\<close>; and an event with a suppressed
  property and an inline body.
\<close>

definition exampleFoo :: json where
  "exampleFoo =
     JObject [(''type'', JString ''object''),
              (''properties'', JObject [(''b_c'', JObject [(''type'', JString ''integer'')]),
                                        (''a'', JObject [(''type'', JString ''string'')])]),
              (''required'', JArray [JString ''a''])]"

definition exampleBar :: json where
  "exampleBar =
     JObject [(''allOf'', JArray [JObject [(''$ref'', JString ''#/definitions/Foo'')],
                JObject [(''type'', JString ''object''),
                         (''properties'', JObject [(''c'', JObject [(''type'', JString ''boolean'')])])]])]"

definition exampleEvent :: json where
  "exampleEvent =
     JObject [(''allOf'', JArray [JObject [(''$ref'', JString ''#/definitions/Event'')],
                JObject [(''type'', JString ''object''),
                         (''properties'', JObject
                            [(''event'', JObject [(''type'', JString ''string'')]),
                             (''body'', JObject [(''type'', JString ''object''),
                                (''properties'', JObject
                                   [(''error'', JObject [(''$ref'', JString ''#/definitions/Message'')])])])]),
                         (''required'', JArray [JString ''event'', JString ''body''])]])]"

definition exampleSchema :: json where
  "exampleSchema =
     JObject [(''definitions'',
       JObject [(''Foo'', exampleFoo), (''Message'', JObject [(''type'', JString ''string'')]),
                (''Bar'', exampleBar), (''StoppedEvent'', exampleEvent)])]"

lemmas eval_simps = mlookup_def keysInOrder_object maybeParseInheritance_def requiredSet_def
  emitToplevelType.simps emitProps.simps parsePropertyType.simps replaceGoTypename_def
  goFieldName_def Title_def replaceAll_def isSeparator_def toTitle_def

lemma exampleFoo_emitted: "emitToplevelType ''Foo'' exampleFoo =
  Inr (''type Foo struct {'' @ nl @
       tab @ ''BC int `json:'' @ dq @ ''b_c,omitempty'' @ dq @ ''`'' @ nl @
       tab @ ''A string `json:'' @ dq @ ''a'' @ dq @ ''`'' @ nl @
       ''}'' @ nl)"
  by (simp add: exampleFoo_def eval_simps)

lemma exampleBar_emitted: "emitToplevelType ''Bar'' exampleBar =
  Inr (''type Bar struct {'' @ nl @
       tab @ ''Foo'' @ nl @ nl @
       tab @ ''C bool `json:'' @ dq @ ''c,omitempty'' @ dq @ ''`'' @ nl @
       ''}'' @ nl)"
  by (simp add: exampleBar_def eval_simps)

lemma exampleEvent_emitted: "emitToplevelType ''StoppedEvent'' exampleEvent =
  Inr (''type StoppedEvent struct {'' @ nl @
       tab @ ''Event'' @ nl @ nl @
       tab @ ''Body StoppedEventBody `json:'' @ dq @ ''body'' @ dq @ ''`'' @ nl @
       ''}'' @ nl @ nl @
       ''type StoppedEventBody struct {'' @ nl @
       tab @ ''Error ErrorMessage `json:'' @ dq @ ''error,omitempty'' @ dq @ ''`'' @ nl @
       ''}'' @ nl)"
  by (simp add: exampleEvent_def eval_simps)

lemma exampleSchema_wholeFile: "wholeFile exampleSchema =
  Inr (preamble @
       ''type Foo struct {'' @ nl @
       tab @ ''BC int `json:'' @ dq @ ''b_c,omitempty'' @ dq @ ''`'' @ nl @
       tab @ ''A string `json:'' @ dq @ ''a'' @ dq @ ''`'' @ nl @
       ''}'' @ nl @ nl @
       ''type ErrorMessage string'' @ nl @ nl @
       ''type Bar struct {'' @ nl @
       tab @ ''Foo'' @ nl @ nl @
       tab @ ''C bool `json:'' @ dq @ ''c,omitempty'' @ dq @ ''`'' @ nl @
       ''}'' @ nl @ nl @
       ''type StoppedEvent struct {'' @ nl @
       tab @ ''Event'' @ nl @ nl @
       tab @ ''Body StoppedEventBody `json:'' @ dq @ ''body'' @ dq @ ''`'' @ nl @
       ''}'' @ nl @ nl @
       ''type StoppedEventBody struct {'' @ nl @
       tab @ ''Error ErrorMessage `json:'' @ dq @ ''error,omitempty'' @ dq @ ''`'' @ nl @
       ''}'' @ nl @ nl @
       ''func (StoppedEvent) isMessage() {}'' @ nl)"
  by (simp add: wholeFile_def exampleSchema_def exampleFoo_emitted exampleBar_emitted exampleEvent_emitted mlookup_def keysInOrder_object
      replaceGoTypename_def emitToplevelType.simps [of _ "JObject [(''type'', JString ''string'')]"]
      maybeParseInheritance_def suffix_to_prefix)

text \<open>
  A \<^verbatim>\<open>Response\<close> with a body, a response whose body is a reference, and a schema with a
  malformed reference.
\<close>

definition exampleResponse :: json where
  "exampleResponse =
     JObject [(''type'', JString ''object''),
              (''properties'', JObject [(''success'', JObject [(''type'', JString ''boolean'')]),
                                        (''body'', JObject [(''type'', JArray [JString ''object'']) ])]),
              (''required'', JArray [JString ''success''])]"

definition exampleErrorResponse :: json where
  "exampleErrorResponse =
     JObject [(''type'', JString ''object''),
              (''properties'', JObject [(''body'', JObject [(''$ref'', JString ''#/definitions/Message'')])]),
              (''required'', JArray [JString ''body''])]"

lemma exampleResponse_emitted: "emitToplevelType ''Response'' exampleResponse =
  Inr (''type Response struct {'' @ nl @
       tab @ ''Success bool `json:'' @ dq @ ''success'' @ dq @ ''`'' @ nl @
       ''}'' @ nl)"
  by (simp add: exampleResponse_def eval_simps)

lemma exampleErrorResponse_emitted: "emitToplevelType ''ErrorResponse'' exampleErrorResponse =
  Inr (''type ErrorResponse struct {'' @ nl @
       tab @ ''Body ErrorMessage `json:'' @ dq @ ''body'' @ dq @ ''`'' @ nl @
       ''}'' @ nl)"
  by (simp add: exampleErrorResponse_def eval_simps)


section \<open>The claims\<close>

subsection \<open>C1: the suppression table\<close>

text \<open>
  Claim C1. Whether the loop drops a property depends on the property name and the
  owning type name alone, by the table \<open>suppression_table\<close>: \<^verbatim>\<open>type\<close> for \<^verbatim>\<open>Request\<close>,
  \<^verbatim>\<open>Response\<close> and \<^verbatim>\<open>Event\<close>; \<^verbatim>\<open>command\<close> for every type but \<^verbatim>\<open>Request\<close> and \<^verbatim>\<open>Response\<close>;
  \<^verbatim>\<open>event\<close> for every type but \<^verbatim>\<open>Event\<close>; \<^verbatim>\<open>arguments\<close> for \<^verbatim>\<open>Request\<close>. A property in the
  table is passed over with the loop state unchanged, whatever its descriptor; a
  property other than \<^verbatim>\<open>body\<close> leaves the state unchanged exactly when it is in the
  table, and otherwise it fails or appends its field line.
\<close>

theorem suppression_table_exact:
  "(suppression_table propName typeName \<longrightarrow>
      emitProps typeName pm rq (propName # rest) st = emitProps typeName pm rq rest st) \<and>
   (propName \<noteq> ''body'' \<longrightarrow>
      (emitProps typeName pm rq [propName] (b, bt) = Inr (b, bt))
        = suppression_table propName typeName) \<and>
   (propName \<noteq> ''body'' \<longrightarrow> \<not> suppression_table propName typeName \<longrightarrow>
      emitProps typeName pm rq (propName # rest) (b, bt) =
        (case fieldType typeName pm propName of
           Inl e \<Rightarrow> Inl e
         | Inr goType \<Rightarrow>
             emitProps typeName pm rq rest (b @ fieldLine rq propName goType, bt)))"
proof (intro conjI impI)
  assume "suppression_table propName typeName"
  then show "emitProps typeName pm rq (propName # rest) st = emitProps typeName pm rq rest st"
    by (rule emitProps_suppressed)
next
  assume nb: "propName \<noteq> ''body''"
  show "(emitProps typeName pm rq [propName] (b, bt) = Inr (b, bt))
          = suppression_table propName typeName"
  proof (cases "suppression_table propName typeName")
    case True
    then show ?thesis by (simp add: emitProps_suppressed)
  next
    case False
    with nb have "\<not> dropped typeName propName" by (simp add: dropped_def)
    from emitProps_kept [OF this] nb False show ?thesis
      by (simp add: fieldLine_nonempty split: sum.splits)
  qed
next
  assume nb: "propName \<noteq> ''body''" and "\<not> suppression_table propName typeName"
  then have "\<not> dropped typeName propName" by (simp add: dropped_def)
  from emitProps_kept [OF this] nb
  show "emitProps typeName pm rq (propName # rest) (b, bt) =
        (case fieldType typeName pm propName of
           Inl e \<Rightarrow> Inl e
         | Inr goType \<Rightarrow>
             emitProps typeName pm rq rest (b @ fieldLine rq propName goType, bt))"
    by (simp cong: sum.case_cong)
qed

theorem suppression_table_exact_witness:
  "suppression_table ''arguments'' ''Request'' \<and>
   emitProps ''Request'' [(''arguments'', JObject [(''type'', JString ''string'')])] []
     [''arguments''] ([], []) = Inr ([], []) \<and>
   \<not> suppression_table ''arguments'' ''LaunchRequest'' \<and>
   emitProps ''LaunchRequest'' [(''arguments'', JObject [(''type'', JString ''string'')])] []
     [''arguments''] ([], []) = Inr (fieldLine [] ''arguments'' ''string'', [])"
  using
    suppression_table_exact [of "''arguments''" "''Request''"
      "[(''arguments'', JObject [(''type'', JString ''string'')])]" "[]" "[]" "([], [])" "[]" "[]"]
    suppression_table_exact [of "''arguments''" "''LaunchRequest''"
      "[(''arguments'', JObject [(''type'', JString ''string'')])]" "[]" "[]" "([], [])" "[]" "[]"]
  by (simp add: suppression_table_def fieldType_def mlookup_def parsePropertyType.simps)

subsection \<open>C2: the body property\<close>

text \<open>
  Claim C2. For an emitted struct whose \<^verbatim>\<open>properties\<close> have a key \<^verbatim>\<open>body\<close>: in \<^verbatim>\<open>Response\<close>
  and \<^verbatim>\<open>Event\<close> no \<^verbatim>\<open>Body\<close> field is written and no secondary type follows. In every
  other type, when the body descriptor has a \<^verbatim>\<open>$ref\<close> the field has the resolved
  reference as its type and no secondary type follows; otherwise the field has the
  type named by the owning type followed by \<^verbatim>\<open>Body\<close>, and the text of that type,
  emitted from the inline description, follows the closing brace of the struct after
  an empty line. The tag of the \<^verbatim>\<open>Body\<close> field follows the required set.
\<close>

theorem body_property:
  assumes "emitToplevelType t j = Inr out"
    and "unmarshalMap j = Inr dm0"
    and "maybeParseInheritance dm0 = Inr (base, dm)"
    and "mlookup dm ''type'' = Some tj"
    and "unmarshalString tj = Inr ''object''"
    and "mlookup dm ''properties'' = Some (JObject props)"
    and "''body'' \<in> set (map fst props)"
  shows "\<exists>rq tys bodyJson propDesc secondary.
           requiredSet dm = Inr rq \<and>
           list_all2 (\<lambda>p ty. fieldType t props p = Inr ty)
             (filter (\<lambda>p. \<not> dropped t p) (map fst props)) tys \<and>
           out = structHeader t base @
                 concat (map2 (fieldLine rq) (filter (\<lambda>p. \<not> dropped t p) (map fst props)) tys) @
                 ''}'' @ nl @ secondary \<and>
           fieldLine rq ''body'' = (\<lambda>ty. tab @ ''Body '' @ ty @ '' `json:'' @ dq @ ''body'' @
                 (if ''body'' \<in> set rq then [] else '',omitempty'') @ dq @ ''`'' @ nl) \<and>
           mlookup props ''body'' = Some bodyJson \<and> unmarshalMap bodyJson = Inr propDesc \<and>
           (if t = ''Response'' \<or> t = ''Event'' then
              ''body'' \<notin> set (filter (\<lambda>p. \<not> dropped t p) (map fst props)) \<and> secondary = []
            else
              ''body'' \<in> set (filter (\<lambda>p. \<not> dropped t p) (map fst props)) \<and>
              (case mlookup propDesc ''$ref'' of
                 Some ref \<Rightarrow> fieldType t props ''body'' = parseRef ref \<and> secondary = []
               | None \<Rightarrow>
                   fieldType t props ''body'' = Inr (t @ ''Body'') \<and>
                   (\<exists>bodyType. emitToplevelType (t @ ''Body'') bodyJson = Inr bodyType \<and>
                      prefix (''type '' @ t @ ''Body '') bodyType \<and>
                      secondary = nl @ bodyType)))"
proof -
  let ?kept = "filter (\<lambda>p. \<not> dropped t p) (map fst props)"
  from emitToplevelType_shape [OF assms(1-6)]
  obtain rq tys bt where rq: "requiredSet dm = Inr rq"
    and tys: "list_all2 (\<lambda>p ty. fieldType t props p = Inr ty) ?kept tys"
    and out: "out = structHeader t base @ concat (map2 (fieldLine rq) ?kept tys) @
                ''}'' @ nl @ (if bt \<noteq> [] then nl @ bt else [])"
    and bt: "if ''body'' \<in> set ?kept
             then (case secondaryType t props of None \<Rightarrow> bt = [] | Some r \<Rightarrow> r = Inr bt)
             else bt = []"
    by auto
  have line: "fieldLine rq ''body'' = (\<lambda>ty. tab @ ''Body '' @ ty @ '' `json:'' @ dq @ ''body'' @
                 (if ''body'' \<in> set rq then [] else '',omitempty'') @ dq @ ''`'' @ nl)"
    by (simp add: fieldLine_def goFieldName_body fun_eq_iff)
  have nt: "\<not> suppression_table ''body'' t" by (simp add: suppression_table_def)
  from emitToplevelType_fields [OF assms(1-6)]
  obtain rq' b' bt' where
    "emitProps t props rq' (map fst props) (structHeader t base, []) = Inr (b', bt')"
    by auto
  from emitProps_decoded [OF this assms(7) nt]
  obtain bodyJson propDesc where dec: "mlookup props ''body'' = Some bodyJson"
    "unmarshalMap bodyJson = Inr propDesc"
    by blast
  have cases: "if t = ''Response'' \<or> t = ''Event'' then
              ''body'' \<notin> set ?kept \<and> (if bt \<noteq> [] then nl @ bt else []) = []
            else
              ''body'' \<in> set ?kept \<and>
              (case mlookup propDesc ''$ref'' of
                 Some ref \<Rightarrow> fieldType t props ''body'' = parseRef ref \<and>
                   (if bt \<noteq> [] then nl @ bt else []) = []
               | None \<Rightarrow>
                   fieldType t props ''body'' = Inr (t @ ''Body'') \<and>
                   (\<exists>bodyType. emitToplevelType (t @ ''Body'') bodyJson = Inr bodyType \<and>
                      prefix (''type '' @ t @ ''Body '') bodyType \<and>
                      (if bt \<noteq> [] then nl @ bt else []) = nl @ bodyType))"
  proof (cases "t = ''Response'' \<or> t = ''Event''")
    case True
    then have "dropped t ''body''" by (auto simp: dropped_def)
    then have "''body'' \<notin> set ?kept" by simp
    with bt True show ?thesis by auto
  next
    case False
    then have "\<not> dropped t ''body''" by (simp add: dropped_def suppression_table_def)
    with assms(7) have kept: "''body'' \<in> set ?kept" by simp
    show ?thesis
    proof (cases "mlookup propDesc ''$ref''")
      case None
      with dec have "secondaryType t props = Some (emitToplevelType (t @ ''Body'') bodyJson)"
        by (simp add: secondaryType_def)
      with bt kept have e: "emitToplevelType (t @ ''Body'') bodyJson = Inr bt" by simp
      from emitToplevelType_prefix [OF e] emitToplevelType_nonempty [OF e] e None dec kept False
      show ?thesis by (simp add: fieldType_def)
    next
      case (Some ref)
      with dec have "secondaryType t props = None" by (simp add: secondaryType_def)
      with bt kept have "bt = []" by simp
      with Some dec kept False show ?thesis by (simp add: fieldType_def)
    qed
  qed
  show ?thesis
    by (intro exI [of _ rq] exI [of _ tys] exI [of _ bodyJson] exI [of _ propDesc]
        exI [of _ "if bt \<noteq> [] then nl @ bt else []"] conjI rq tys out line dec cases)
qed

theorem body_property_witness:
  "(\<exists>out tys bodyType.
      emitToplevelType ''StoppedEvent'' exampleEvent = Inr out \<and>
      out = structHeader ''StoppedEvent'' ''Event'' @
            concat (map2 (fieldLine [''body'', ''event'']) [''body''] tys) @
            ''}'' @ nl @ nl @ bodyType \<and>
      prefix ''type StoppedEventBody '' bodyType) \<and>
   (\<exists>out tys.
      emitToplevelType ''Response'' exampleResponse = Inr out \<and>
      out = structHeader ''Response'' [] @
            concat (map2 (fieldLine [''success'']) [''success''] tys) @ ''}'' @ nl) \<and>
   (\<exists>out tys.
      emitToplevelType ''ErrorResponse'' exampleErrorResponse = Inr out \<and>
      fieldType ''ErrorResponse'' [(''body'', JObject [(''$ref'', JString ''#/definitions/Message'')])]
        ''body'' = Inr ''ErrorMessage'' \<and>
      out = structHeader ''ErrorResponse'' [] @
            concat (map2 (fieldLine [''body'']) [''body''] tys) @ ''}'' @ nl)"
proof -
  have "\<exists>out tys bodyType.
      emitToplevelType ''StoppedEvent'' exampleEvent = Inr out \<and>
      out = structHeader ''StoppedEvent'' ''Event'' @
            concat (map2 (fieldLine [''body'', ''event'']) [''body''] tys) @
            ''}'' @ nl @ nl @ bodyType \<and>
      prefix ''type StoppedEventBody '' bodyType"
  proof -
    obtain out where o: "emitToplevelType ''StoppedEvent'' exampleEvent = Inr out"
      using exampleEvent_emitted by blast
    define props where "props =
       [(''event'', JObject [(''type'', JString ''string'')]),
        (''body'', JObject [(''type'', JString ''object''),
           (''properties'', JObject
              [(''error'', JObject [(''$ref'', JString ''#/definitions/Message'')])])])]"
    define dm where "dm = [(''type'', JString ''object''), (''properties'', JObject props),
                           (''required'', JArray [JString ''event'', JString ''body''])]"
    define dm0 where "dm0 =
       [(''allOf'', JArray [JObject [(''$ref'', JString ''#/definitions/Event'')], JObject dm])]"
    have h: "unmarshalMap exampleEvent = Inr dm0" "maybeParseInheritance dm0 = Inr (''Event'', dm)"
      "mlookup dm ''type'' = Some (JString ''object'')"
      "unmarshalString (JString ''object'') = Inr ''object''"
      "mlookup dm ''properties'' = Some (JObject props)" "''body'' \<in> set (map fst props)"
      by (simp_all add: exampleEvent_def dm0_def dm_def props_def maybeParseInheritance_def
          mlookup_def replaceGoTypename_def)
    from body_property [OF o h]
    obtain rq tys bodyJson propDesc secondary where
      "requiredSet dm = Inr rq"
      "out = structHeader ''StoppedEvent'' ''Event'' @
                 concat (map2 (fieldLine rq)
                   (filter (\<lambda>p. \<not> dropped ''StoppedEvent'' p) (map fst props)) tys) @
                 ''}'' @ nl @ secondary"
      "mlookup props ''body'' = Some bodyJson" "unmarshalMap bodyJson = Inr propDesc"
      "(case mlookup propDesc ''$ref'' of
                 Some ref \<Rightarrow> fieldType ''StoppedEvent'' props ''body'' = parseRef ref \<and> secondary = []
               | None \<Rightarrow>
                   fieldType ''StoppedEvent'' props ''body'' = Inr (''StoppedEvent'' @ ''Body'') \<and>
                   (\<exists>bodyType. emitToplevelType (''StoppedEvent'' @ ''Body'') bodyJson = Inr bodyType \<and>
                      prefix (''type '' @ ''StoppedEvent'' @ ''Body '') bodyType \<and>
                      secondary = nl @ bodyType))"
      by auto
    moreover from this have "rq = [''body'', ''event'']" "mlookup propDesc ''$ref'' = None"
      by (auto simp: dm_def props_def requiredSet_def mlookup_def)
    ultimately obtain bodyType where
      "out = structHeader ''StoppedEvent'' ''Event'' @
            concat (map2 (fieldLine [''body'', ''event'']) [''body''] tys) @
            ''}'' @ nl @ nl @ bodyType"
      "prefix ''type StoppedEventBody '' bodyType"
      by (auto simp: props_def dropped_def suppression_table_def)
    with o show ?thesis by blast
  qed
  moreover have "\<exists>out tys.
      emitToplevelType ''Response'' exampleResponse = Inr out \<and>
      out = structHeader ''Response'' [] @
            concat (map2 (fieldLine [''success'']) [''success''] tys) @ ''}'' @ nl"
  proof -
    obtain out where o: "emitToplevelType ''Response'' exampleResponse = Inr out"
      using exampleResponse_emitted by blast
    define props where "props =
       [(''success'', JObject [(''type'', JString ''boolean'')]),
        (''body'', JObject [(''type'', JArray [JString ''object''])])]"
    define dm where "dm = [(''type'', JString ''object''), (''properties'', JObject props),
                           (''required'', JArray [JString ''success''])]"
    have h: "unmarshalMap exampleResponse = Inr dm" "maybeParseInheritance dm = Inr ([], dm)"
      "mlookup dm ''type'' = Some (JString ''object'')"
      "unmarshalString (JString ''object'') = Inr ''object''"
      "mlookup dm ''properties'' = Some (JObject props)" "''body'' \<in> set (map fst props)"
      by (simp_all add: exampleResponse_def dm_def props_def maybeParseInheritance_def mlookup_def)
    from body_property [OF o h]
    obtain rq tys secondary where
      "requiredSet dm = Inr rq"
      "out = structHeader ''Response'' [] @
                 concat (map2 (fieldLine rq)
                   (filter (\<lambda>p. \<not> dropped ''Response'' p) (map fst props)) tys) @
                 ''}'' @ nl @ secondary"
      "secondary = []"
      by auto
    moreover from this have "rq = [''success'']"
      by (auto simp: dm_def requiredSet_def mlookup_def)
    ultimately have
      "out = structHeader ''Response'' [] @
            concat (map2 (fieldLine [''success'']) [''success''] tys) @ ''}'' @ nl"
      by (auto simp: props_def dropped_def suppression_table_def)
    with o show ?thesis by blast
  qed
  moreover have "\<exists>out tys.
      emitToplevelType ''ErrorResponse'' exampleErrorResponse = Inr out \<and>
      fieldType ''ErrorResponse'' [(''body'', JObject [(''$ref'', JString ''#/definitions/Message'')])]
        ''body'' = Inr ''ErrorMessage'' \<and>
      out = structHeader ''ErrorResponse'' [] @
            concat (map2 (fieldLine [''body'']) [''body''] tys) @ ''}'' @ nl"
  proof -
    obtain out where o: "emitToplevelType ''ErrorResponse'' exampleErrorResponse = Inr out"
      using exampleErrorResponse_emitted by blast
    define props where "props = [(''body'', JObject [(''$ref'', JString ''#/definitions/Message'')])]"
    define dm where "dm = [(''type'', JString ''object''), (''properties'', JObject props),
                           (''required'', JArray [JString ''body''])]"
    have h: "unmarshalMap exampleErrorResponse = Inr dm" "maybeParseInheritance dm = Inr ([], dm)"
      "mlookup dm ''type'' = Some (JString ''object'')"
      "unmarshalString (JString ''object'') = Inr ''object''"
      "mlookup dm ''properties'' = Some (JObject props)" "''body'' \<in> set (map fst props)"
      by (simp_all add: exampleErrorResponse_def dm_def props_def maybeParseInheritance_def
          mlookup_def)
    from body_property [OF o h]
    obtain rq tys bodyJson propDesc secondary where
      "requiredSet dm = Inr rq"
      "out = structHeader ''ErrorResponse'' [] @
                 concat (map2 (fieldLine rq)
                   (filter (\<lambda>p. \<not> dropped ''ErrorResponse'' p) (map fst props)) tys) @
                 ''}'' @ nl @ secondary"
      "mlookup props ''body'' = Some bodyJson" "unmarshalMap bodyJson = Inr propDesc"
      "(case mlookup propDesc ''$ref'' of
                 Some ref \<Rightarrow> fieldType ''ErrorResponse'' props ''body'' = parseRef ref \<and> secondary = []
               | None \<Rightarrow>
                   fieldType ''ErrorResponse'' props ''body'' = Inr (''ErrorResponse'' @ ''Body'') \<and>
                   (\<exists>bodyType. emitToplevelType (''ErrorResponse'' @ ''Body'') bodyJson = Inr bodyType \<and>
                      prefix (''type '' @ ''ErrorResponse'' @ ''Body '') bodyType \<and>
                      secondary = nl @ bodyType))"
      by auto
    moreover from this have "rq = [''body'']"
      "mlookup propDesc ''$ref'' = Some (JString ''#/definitions/Message'')"
      by (auto simp: dm_def props_def requiredSet_def mlookup_def)
    ultimately have
      "fieldType ''ErrorResponse'' props ''body'' = Inr ''ErrorMessage''"
      "out = structHeader ''ErrorResponse'' [] @
            concat (map2 (fieldLine [''body'']) [''body''] tys) @ ''}'' @ nl"
      by (auto simp: props_def dropped_def suppression_table_def replaceGoTypename_def)
    with o show ?thesis unfolding props_def by blast
  qed
  ultimately show ?thesis by blast
qed

subsection \<open>C3: source order\<close>



subsection \<open>C4: the renaming of Message\<close>

text \<open>
  Claim C4. A reference \<^verbatim>\<open>#/definitions/Name\<close> resolves to \<^verbatim>\<open>Name\<close>, and to
  \<^verbatim>\<open>ErrorMessage\<close> when the name is \<^verbatim>\<open>Message\<close>. No type name that the generator writes is
  \<^verbatim>\<open>Message\<close>: not a resolved reference, a mapped property type, the type of a field, or
  the name after \<^verbatim>\<open>type\<close> at the head of the block of a definition, which is the key
  renamed; the marker loop tests and writes the renamed key as well.
\<close>

theorem message_renamed:
  "parseRef (JString (''#/definitions/'' @ name))
     = Inr (if name = ''Message'' then ''ErrorMessage'' else name) \<and>
   replaceGoTypename typeName \<noteq> ''Message'' \<and>
   (parseRef ref = Inr n \<longrightarrow> n \<noteq> ''Message'') \<and>
   (parsePropertyType propValue = Inr goType \<longrightarrow> goType \<noteq> ''Message'') \<and>
   (fieldType t pm p = Inr ty \<longrightarrow> ty \<noteq> ''Message'') \<and>
   (wholeFile inputData = Inr whole \<longrightarrow>
      (\<exists>m defs texts.
         unmarshalMap inputData = Inr m \<and> mlookup m ''definitions'' = Some (JObject defs) \<and>
         list_all2
           (\<lambda>typeName text.
              prefix (''type '' @ (if typeName = ''Message'' then ''ErrorMessage'' else typeName)
                      @ '' '') text)
           (map fst defs) texts \<and>
         whole = preamble @ concat (map (\<lambda>text. text @ nl) texts) @
                 emitMarkers (map fst defs) [])) \<and>
   emitMarkers (typeName # rest) b =
     emitMarkers rest
       (b @ (if suffix ''Event'' (replaceGoTypename typeName) \<or>
                suffix ''Request'' (replaceGoTypename typeName) \<or>
                suffix ''Response'' (replaceGoTypename typeName) \<or>
                replaceGoTypename typeName = ''ProtocolMessage''
             then ''func ('' @ replaceGoTypename typeName @ '') isMessage() {}'' @ nl
             else []))"
proof (intro conjI impI)
  show "parseRef (JString (''#/definitions/'' @ name))
     = Inr (if name = ''Message'' then ''ErrorMessage'' else name)"
    by (simp add: replaceGoTypename_def)
next
  assume "wholeFile inputData = Inr whole"
  from wholeFile_result [OF this] obtain m defs b where m: "unmarshalMap inputData = Inr m"
    and defs: "mlookup m ''definitions'' = Some (JObject defs)"
    and b: "emitTypes defs (map fst defs) preamble = Inr b"
    and whole: "whole = emitMarkers (map fst defs) b"
    by blast
  from emitTypes_result [OF b] obtain texts where
    texts: "list_all2 (\<lambda>typeName text. \<exists>descJson. mlookup defs typeName = Some descJson \<and>
                        emitToplevelType (replaceGoTypename typeName) descJson = Inr text)
             (map fst defs) texts"
    and b': "b = preamble @ concat (map (\<lambda>text. text @ nl) texts)"
    by blast
  from texts have "list_all2
           (\<lambda>typeName text.
              prefix (''type '' @ (if typeName = ''Message'' then ''ErrorMessage'' else typeName)
                      @ '' '') text)
           (map fst defs) texts"
    by (rule list_all2_mono)
      (auto dest!: emitToplevelType_prefix simp: replaceGoTypename_def split: if_splits)
  moreover have "whole = preamble @ concat (map (\<lambda>text. text @ nl) texts) @
                 emitMarkers (map fst defs) []"
    unfolding whole b' by (subst emitMarkers_append) simp
  ultimately show "\<exists>m defs texts.
         unmarshalMap inputData = Inr m \<and> mlookup m ''definitions'' = Some (JObject defs) \<and>
         list_all2
           (\<lambda>typeName text.
              prefix (''type '' @ (if typeName = ''Message'' then ''ErrorMessage'' else typeName)
                      @ '' '') text)
           (map fst defs) texts \<and>
         whole = preamble @ concat (map (\<lambda>text. text @ nl) texts) @
                 emitMarkers (map fst defs) []"
    using m defs by blast
next
  show "emitMarkers (typeName # rest) b =
     emitMarkers rest
       (b @ (if suffix ''Event'' (replaceGoTypename typeName) \<or>
                suffix ''Request'' (replaceGoTypename typeName) \<or>
                suffix ''Response'' (replaceGoTypename typeName) \<or>
                replaceGoTypename typeName = ''ProtocolMessage''
             then ''func ('' @ replaceGoTypename typeName @ '') isMessage() {}'' @ nl
             else []))"
    by (simp add: Let_def)
qed (auto dest: parseRef_not_Message parsePropertyType_not_Message fieldType_not_Message
      simp: replaceGoTypename_not_Message)

theorem message_renamed_witness:
  "parsePropertyType [(''$ref'', JString ''#/definitions/Message'')] = Inr ''ErrorMessage'' \<and>
   ''ErrorMessage'' \<noteq> ''Message'' \<and>
   (\<exists>whole texts.
      wholeFile exampleSchema = Inr whole \<and>
      list_all2 (\<lambda>typeName text. prefix (''type '' @ typeName @ '' '') text)
        [''Foo'', ''ErrorMessage'', ''Bar'', ''StoppedEvent''] texts \<and>
      whole = preamble @ concat (map (\<lambda>text. text @ nl) texts) @
              ''func (StoppedEvent) isMessage() {}'' @ nl)"
proof -
  have p: "parsePropertyType [(''$ref'', JString ''#/definitions/Message'')] = Inr ''ErrorMessage''"
    by (simp add: eval_simps)
  obtain whole where w: "wholeFile exampleSchema = Inr whole"
    using exampleSchema_wholeFile by blast
  note inst = message_renamed [where propValue = "[(''$ref'', JString ''#/definitions/Message'')]"
      and goType = "''ErrorMessage''" and inputData = exampleSchema and whole = whole]
  from inst p have "''ErrorMessage'' \<noteq> ''Message''" by blast
  moreover have "\<exists>texts.
      list_all2 (\<lambda>typeName text. prefix (''type '' @ typeName @ '' '') text)
        [''Foo'', ''ErrorMessage'', ''Bar'', ''StoppedEvent''] texts \<and>
      whole = preamble @ concat (map (\<lambda>text. text @ nl) texts) @
              ''func (StoppedEvent) isMessage() {}'' @ nl"
  proof -
    from inst [THEN conjunct2, THEN conjunct2, THEN conjunct2, THEN conjunct2, THEN conjunct2,
        THEN conjunct1, rule_format, OF w]
    obtain m defs texts where "unmarshalMap exampleSchema = Inr m"
      "mlookup m ''definitions'' = Some (JObject defs)"
      and l: "list_all2
           (\<lambda>typeName text.
              prefix (''type '' @ (if typeName = ''Message'' then ''ErrorMessage'' else typeName)
                      @ '' '') text)
           (map fst defs) texts"
      and e: "whole = preamble @ concat (map (\<lambda>text. text @ nl) texts) @
                 emitMarkers (map fst defs) []"
      by blast
    then have defs: "map fst defs = [''Foo'', ''Message'', ''Bar'', ''StoppedEvent'']"
      by (auto simp: exampleSchema_def mlookup_def)
    from l have "list_all2 (\<lambda>typeName text. prefix (''type '' @ typeName @ '' '') text)
        [''Foo'', ''ErrorMessage'', ''Bar'', ''StoppedEvent''] texts"
      unfolding defs by (auto simp: list_all2_Cons1)
    moreover from e have "whole = preamble @ concat (map (\<lambda>text. text @ nl) texts) @
              ''func (StoppedEvent) isMessage() {}'' @ nl"
      unfolding defs by (simp add: replaceGoTypename_def suffix_to_prefix)
    ultimately show ?thesis by blast
  qed
  ultimately show ?thesis using p w by blast
qed

subsection \<open>C5: inheritance\<close>



subsection \<open>C6: the property-type mapper\<close>

text \<open>
  Claim C6. The rules of \<^verbatim>\<open>parsePropertyType\<close>, in priority order: a descriptor with
  \<^verbatim>\<open>$ref\<close> maps to the resolved reference, whatever its \<^verbatim>\<open>type\<close>; otherwise a missing
  \<^verbatim>\<open>type\<close> is fatal; \<^verbatim>\<open>string\<close>, \<^verbatim>\<open>integer\<close> and \<^verbatim>\<open>boolean\<close> map to \<^verbatim>\<open>string\<close>, \<^verbatim>\<open>int\<close> and
  \<^verbatim>\<open>bool\<close>; \<^verbatim>\<open>array\<close> maps to \<^verbatim>\<open>[]\<close> followed by the mapped \<^verbatim>\<open>items\<close> and is fatal without
  \<^verbatim>\<open>items\<close>; \<^verbatim>\<open>object\<close> maps to \<^verbatim>\<open>map[string]\<close> followed by the mapped
  \<^verbatim>\<open>additionalProperties\<close> and is fatal without it; a \<^verbatim>\<open>type\<close> that is a JSON list maps
  to \<^verbatim>\<open>interface{}\<close>; every other \<^verbatim>\<open>type\<close> is fatal.
\<close>

theorem parsePropertyType_rules:
  "(\<forall>ref. mlookup propValue ''$ref'' = Some ref \<longrightarrow>
      parsePropertyType propValue = parseRef ref) \<and>
   (mlookup propValue ''$ref'' = None \<longrightarrow>
      (mlookup propValue ''type'' = None \<longrightarrow> parsePropertyType propValue = Inl Fatal) \<and>
      (mlookup propValue ''type'' = Some (JString ''string'') \<longrightarrow>
         parsePropertyType propValue = Inr ''string'') \<and>
      (mlookup propValue ''type'' = Some (JString ''integer'') \<longrightarrow>
         parsePropertyType propValue = Inr ''int'') \<and>
      (mlookup propValue ''type'' = Some (JString ''boolean'') \<longrightarrow>
         parsePropertyType propValue = Inr ''bool'') \<and>
      (mlookup propValue ''type'' = Some (JString ''array'') \<longrightarrow>
         (mlookup propValue ''items'' = None \<longrightarrow> parsePropertyType propValue = Inl Fatal) \<and>
         (\<forall>items. mlookup propValue ''items'' = Some (JObject items) \<longrightarrow>
            parsePropertyType propValue =
              (case parsePropertyType items of
                 Inl e \<Rightarrow> Inl e
               | Inr itemType \<Rightarrow> Inr (''[]'' @ itemType)))) \<and>
      (mlookup propValue ''type'' = Some (JString ''object'') \<longrightarrow>
         (mlookup propValue ''additionalProperties'' = None \<longrightarrow>
            parsePropertyType propValue = Inl Fatal) \<and>
         (\<forall>props. mlookup propValue ''additionalProperties'' = Some (JObject props) \<longrightarrow>
            parsePropertyType propValue =
              (case parsePropertyType props of
                 Inl e \<Rightarrow> Inl e
               | Inr valueType \<Rightarrow> Inr (''map[string]'' @ valueType)))) \<and>
      (\<forall>tys. mlookup propValue ''type'' = Some (JArray tys) \<longrightarrow>
         parsePropertyType propValue = Inr ''interface{}'') \<and>
      (\<forall>ty. mlookup propValue ''type'' = Some (JString ty) \<longrightarrow>
         ty \<notin> {''string'', ''integer'', ''boolean'', ''array'', ''object''} \<longrightarrow>
         parsePropertyType propValue = Inl Fatal) \<and>
      (\<forall>v. mlookup propValue ''type'' = Some v \<longrightarrow>
         (\<forall>ty. v \<noteq> JString ty) \<longrightarrow> (\<forall>tys. v \<noteq> JArray tys) \<longrightarrow>
         parsePropertyType propValue = Inl Fatal))"
proof (intro conjI impI allI)
  fix v
  assume "mlookup propValue ''$ref'' = None" "mlookup propValue ''type'' = Some v"
    "\<forall>ty. v \<noteq> JString ty" "\<forall>tys. v \<noteq> JArray tys"
  then show "parsePropertyType propValue = Inl Fatal"
    by (cases v) (simp_all add: parsePropertyType.simps [of propValue])
qed (simp_all add: parsePropertyType.simps [of propValue])

theorem parsePropertyType_rules_witness:
  "parsePropertyType [(''type'', JString ''array''),
                      (''items'', JObject [(''type'', JString ''object''),
                         (''additionalProperties'', JObject [(''$ref'', JString ''#/definitions/Message'')])])]
     = Inr ''[]map[string]ErrorMessage'' \<and>
   parsePropertyType [(''type'', JArray [JString ''string'', JString ''null''])] = Inr ''interface{}'' \<and>
   parsePropertyType [(''type'', JString ''number'')] = Inl Fatal \<and>
   parsePropertyType [(''description'', JString ''no type'')] = Inl Fatal \<and>
   parsePropertyType [(''type'', JString ''integer''), (''$ref'', JString ''#/definitions/Source'')]
     = Inr ''Source''"
  using
    parsePropertyType_rules [of "[(''type'', JString ''array''),
                      (''items'', JObject [(''type'', JString ''object''),
                         (''additionalProperties'', JObject [(''$ref'', JString ''#/definitions/Message'')])])]"]
    parsePropertyType_rules [of "[(''type'', JString ''object''),
                         (''additionalProperties'', JObject [(''$ref'', JString ''#/definitions/Message'')])]"]
    parsePropertyType_rules [of "[(''$ref'', JString ''#/definitions/Message'')]"]
    parsePropertyType_rules [of "[(''type'', JArray [JString ''string'', JString ''null''])]"]
    parsePropertyType_rules [of "[(''type'', JString ''number'')]"]
    parsePropertyType_rules [of "[(''description'', JString ''no type'')]"]
    parsePropertyType_rules [of "[(''type'', JString ''integer''), (''$ref'', JString ''#/definitions/Source'')]"]
  by (simp add: mlookup_def replaceGoTypename_def)

subsection \<open>C7: required and optional fields\<close>

text \<open>
  Claim C7. Without a \<^verbatim>\<open>required\<close> key no property is required; with one, the required
  names are the strings of the list. In an emitted struct the tag of a field is
  \<^verbatim>\<open>json:"name"\<close> when the property is required and \<^verbatim>\<open>json:"name,omitempty"\<close> otherwise.
\<close>

theorem required_marking:
  "(mlookup descMap ''required'' = None \<longrightarrow> requiredSet descMap = Inr []) \<and>
   (\<forall>required rq. mlookup descMap ''required'' = Some (JArray required) \<longrightarrow>
      requiredSet descMap = Inr rq \<longrightarrow> set rq = {p. JString p \<in> set required}) \<and>
   (emitToplevelType t j = Inr out \<longrightarrow> unmarshalMap j = Inr dm0 \<longrightarrow>
    maybeParseInheritance dm0 = Inr (base, dm) \<longrightarrow> mlookup dm ''type'' = Some tj \<longrightarrow>
    unmarshalString tj = Inr ''object'' \<longrightarrow> mlookup dm ''properties'' = Some pj \<longrightarrow>
      (\<exists>props rq tys bt.
         pj = JObject props \<and> requiredSet dm = Inr rq \<and>
         length tys = length (filter (\<lambda>p. \<not> dropped t p) (map fst props)) \<and>
         out = structHeader t base @
               concat (map2
                 (\<lambda>p ty. tab @ goFieldName p @ '' '' @ ty @ '' `json:'' @ dq @ p @
                          (if p \<in> set rq then [] else '',omitempty'') @ dq @ ''`'' @ nl)
                 (filter (\<lambda>p. \<not> dropped t p) (map fst props)) tys) @
               ''}'' @ nl @ (if bt \<noteq> [] then nl @ bt else [])))"
proof (intro conjI impI allI)
  assume "mlookup descMap ''required'' = None"
  then show "requiredSet descMap = Inr []" by (simp add: requiredSet_def)
next
  fix required rq
  assume "mlookup descMap ''required'' = Some (JArray required)" "requiredSet descMap = Inr rq"
  then have "requiredLoop [] required = Inr rq" by (simp add: requiredSet_def)
  from requiredLoop_set [OF this] show "set rq = {p. JString p \<in> set required}" by simp
next
  assume "emitToplevelType t j = Inr out" "unmarshalMap j = Inr dm0"
    "maybeParseInheritance dm0 = Inr (base, dm)" "mlookup dm ''type'' = Some tj"
    "unmarshalString tj = Inr ''object''" "mlookup dm ''properties'' = Some pj"
  from emitToplevelType_shape [OF this]
  obtain props rq tys bt where "pj = JObject props" "requiredSet dm = Inr rq"
    and "list_all2 (\<lambda>p ty. fieldType t props p = Inr ty)
             (filter (\<lambda>p. \<not> dropped t p) (map fst props)) tys"
    and "out = structHeader t base @
                 concat (map2 (fieldLine rq) (filter (\<lambda>p. \<not> dropped t p) (map fst props)) tys) @
                 ''}'' @ nl @ (if bt \<noteq> [] then nl @ bt else [])"
    by blast
  moreover from this(3) have "length tys = length (filter (\<lambda>p. \<not> dropped t p) (map fst props))"
    by (rule list_all2_lengthD [symmetric])
  moreover have "fieldLine rq = (\<lambda>p ty. tab @ goFieldName p @ '' '' @ ty @ '' `json:'' @ dq @ p @
                          (if p \<in> set rq then [] else '',omitempty'') @ dq @ ''`'' @ nl)"
    by (simp add: fieldLine_def fun_eq_iff)
  ultimately show "\<exists>props rq tys bt.
         pj = JObject props \<and> requiredSet dm = Inr rq \<and>
         length tys = length (filter (\<lambda>p. \<not> dropped t p) (map fst props)) \<and>
         out = structHeader t base @
               concat (map2
                 (\<lambda>p ty. tab @ goFieldName p @ '' '' @ ty @ '' `json:'' @ dq @ p @
                          (if p \<in> set rq then [] else '',omitempty'') @ dq @ ''`'' @ nl)
                 (filter (\<lambda>p. \<not> dropped t p) (map fst props)) tys) @
               ''}'' @ nl @ (if bt \<noteq> [] then nl @ bt else [])"
    by (intro exI [of _ props] exI [of _ rq] exI [of _ tys] exI [of _ bt]) simp
qed

theorem required_marking_witness:
  "requiredSet [(''type'', JString ''object'')] = Inr [] \<and>
   (\<exists>out ty1 ty2 bt.
      emitToplevelType ''Foo'' exampleFoo = Inr out \<and>
      out = ''type Foo struct {'' @ nl @
            tab @ goFieldName ''b_c'' @ '' '' @ ty1 @ '' `json:'' @ dq @ ''b_c,omitempty'' @ dq @ ''`'' @ nl @
            tab @ goFieldName ''a'' @ '' '' @ ty2 @ '' `json:'' @ dq @ ''a'' @ dq @ ''`'' @ nl @
            ''}'' @ nl @ (if bt \<noteq> [] then nl @ bt else []))"
proof -
  obtain out where o: "emitToplevelType ''Foo'' exampleFoo = Inr out"
    using exampleFoo_emitted by blast
  obtain dm pj where d: "unmarshalMap exampleFoo = Inr dm" "maybeParseInheritance dm = Inr ([], dm)"
    "mlookup dm ''type'' = Some (JString ''object'')" "mlookup dm ''properties'' = Some pj"
    by (simp add: exampleFoo_def maybeParseInheritance_def mlookup_def)
  note inst = required_marking [where t = "''Foo''" and j = exampleFoo and out = out
      and ?dm0.0 = dm and base = "[]" and dm = dm and tj = "JString ''object''" and pj = pj]
  have "requiredSet [(''type'', JString ''object'')] = Inr []"
    using inst [of "[(''type'', JString ''object'')]"] by (simp add: mlookup_def)
  moreover have "\<exists>ty1 ty2 bt.
      out = ''type Foo struct {'' @ nl @
            tab @ goFieldName ''b_c'' @ '' '' @ ty1 @ '' `json:'' @ dq @ ''b_c,omitempty'' @ dq @ ''`'' @ nl @
            tab @ goFieldName ''a'' @ '' '' @ ty2 @ '' `json:'' @ dq @ ''a'' @ dq @ ''`'' @ nl @
            ''}'' @ nl @ (if bt \<noteq> [] then nl @ bt else [])"
  proof -
    have "unmarshalString (JString ''object'') = Inr ''object''" by simp
    from inst [THEN conjunct2, THEN conjunct2, rule_format, OF o d(1-3) this d(4)]
    obtain props rq tys bt where p: "pj = JObject props" "requiredSet dm = Inr rq"
      and len: "length tys = length (filter (\<lambda>p. \<not> dropped ''Foo'' p) (map fst props))"
      and out: "out = structHeader ''Foo'' [] @
               concat (map2
                 (\<lambda>p ty. tab @ goFieldName p @ '' '' @ ty @ '' `json:'' @ dq @ p @
                          (if p \<in> set rq then [] else '',omitempty'') @ dq @ ''`'' @ nl)
                 (filter (\<lambda>p. \<not> dropped ''Foo'' p) (map fst props)) tys) @
               ''}'' @ nl @ (if bt \<noteq> [] then nl @ bt else [])"
      by blast
    from p d have rq: "rq = [''a'']" and props: "map fst props = [''b_c'', ''a'']"
      by (auto simp: exampleFoo_def mlookup_def requiredSet_def)
    from len obtain ty1 ty2 where "tys = [ty1, ty2]"
      unfolding props by (cases tys; cases "tl tys") (auto simp: dropped_def suppression_table_def)
    with out show ?thesis
      unfolding rq props by (auto simp: dropped_def suppression_table_def structHeader_def)
  qed
  ultimately show ?thesis using o by blast
qed

subsection \<open>C8: malformed schemas abort without output\<close>



subsection \<open>C9: field names and tags\<close>



subsection \<open>C10: descriptors of skipped properties\<close>




end
